theory Spec2Isabelle
  imports Main
begin

section \<open>Observable object administration (src/types/observableobject.ts)\<close>

text \<open>
  A shallow embedding of the administration layer of observable objects: the
  administration record, the property installers, the accessor generators and the
  mutation router \<open>setPropertyValue\<close>.  JavaScript objects live in a store indexed by
  references; every effect a caller can observe (an interceptor being invoked, a spy
  report, a cell commit, a listener notification, a call of a computed cell's own
  setter) is appended, in program order, to a trace kept in the state.  An exception
  is a value \<open>Inl (e, st)\<close> of the result type, with the state at the throw.
\<close>

subsection \<open>Values, cells and changes\<close>

type_synonym ref = nat
  \<comment> \<open>reference to an object of the store\<close>
type_synonym fn = nat
  \<comment> \<open>identity of a user function (getter, setter, listener); its body is opaque\<close>

datatype enhancer = Enhancer nat
  \<comment> \<open>an \<open>IEnhancer\<close>, identified by a tag; what it computes belongs to the cell\<close>

text \<open>A \<open>ComputedValue\<close> as far as this file touches it: the constructor arguments
  of line 152 and the \<open>name\<close> and \<open>scope\<close> fields written at lines 160 to 162.\<close>

record computed_value =
  cv_getter :: "fn option"
  cv_scope :: "ref option"
  cv_compareStructural :: bool
  cv_name :: string
  cv_setter :: "fn option"

text \<open>Values.  Numbers are integers (floating point is not modelled) and function
  values are not modelled.  A modifier descriptor (\<open>isModifierDescriptor\<close>) and a
  pre-built computed value (\<open>isComputedValue\<close>) are carried by value.\<close>

datatype jsval =
    JUndefined
  | JNull
  | JBool bool
  | JNum int
  | JStr string
  | JObj ref
  | JModifier jsval enhancer
  | JComputed computed_value

record observable_value =
  ov_value :: jsval
  ov_enhancer :: enhancer
  ov_name :: string

datatype cell = ObservableValue observable_value | ComputedValue computed_value

datatype change_type = Update | Add

text \<open>\<open>IObjectWillChange\<close> (lines 31 to 36) and \<open>IObjectChange\<close> (lines 23 to 29).\<close>

record will_change =
  wc_object :: ref
  wc_type :: change_type
  wc_name :: string
  wc_newValue :: jsval

record change =
  ch_name :: string
  ch_object :: ref
  ch_type :: change_type
  ch_oldValue :: "jsval option"
  ch_newValue :: jsval

text \<open>An interceptor receives the pending change and returns the change to continue
  with, or nothing to cancel.  A listener is an opaque callback.  A callback acts on
  the state only through what it returns and through the record of its invocation:
  writes that a callback itself makes while it runs are outside the model.\<close>

type_synonym interceptor = "will_change \<Rightarrow> will_change option"
type_synonym listener = fn

subsection \<open>The administration record and the object store\<close>

text \<open>\<open>ObservableObjectAdministration\<close> (lines 38 to 58).  The fields
  \<open>changeListeners\<close> and \<open>interceptors\<close> start as \<open>null\<close>, here the empty list.\<close>

record adm =
  adm_values :: "string \<rightharpoonup> cell"
  adm_changeListeners :: "listener list"
  adm_interceptors :: "interceptor list"
  adm_target :: ref
  adm_name :: string

text \<open>The functions of the generated property configurations (lines 179 to 184 and
  195 to 200), one constructor per closure; the argument is the captured
  \<open>propName\<close>.\<close>

datatype accessor_fn =
    ObservableGetter string
  | ObservableSetter string
  | ComputedGetter string
  | ComputedSetter string

record prop_config =
  cfg_configurable :: bool
  cfg_enumerable :: bool
  cfg_get :: accessor_fn
  cfg_set :: accessor_fn

text \<open>An own property of an object: a data property with its value and its
  \<open>writable\<close>, \<open>enumerable\<close> and \<open>configurable\<close> attributes, or an accessor
  property.  Accessors other than the generated ones and the prototype chain of a
  target are not modelled.\<close>

datatype property =
    DataProperty jsval bool bool bool
  | AccessorProperty prop_config

fun prop_configurable :: "property \<Rightarrow> bool" where
  "prop_configurable (DataProperty v w e c) = c"
| "prop_configurable (AccessorProperty cfg) = cfg_configurable cfg"

fun prop_enumerable :: "property \<Rightarrow> bool" where
  "prop_enumerable (DataProperty v w e c) = e"
| "prop_enumerable (AccessorProperty cfg) = cfg_enumerable cfg"

fun is_accessor :: "property \<Rightarrow> bool" where
  "is_accessor (DataProperty v w e c) = False"
| "is_accessor (AccessorProperty cfg) = True"

text \<open>What the hidden \<open>$mobx\<close> slot of an object holds: nothing, an
  \<open>ObservableObjectAdministration\<close>, or something else (the administration of an
  observable array or map, or any other value).  The content of a foreign slot is
  opaque: a function of this file that reads a cell table from it throws.\<close>

datatype mobx_slot =
    NoAdministration
  | ObjectAdministration adm
  | OtherAdministration

text \<open>An object: \<open>class_name\<close> is \<open>None\<close> for a plain structural record and
  \<open>Some n\<close> for an instance of a class whose \<open>constructor.name\<close> is \<open>n\<close>.\<close>

record js_object =
  class_name :: "string option"
  extensible :: bool
  props :: "string \<rightharpoonup> property"
  mobx :: mobx_slot

text \<open>The events of the trace.  A spy and a listener are callbacks that can read the
  object while they run: \<open>Readable r name v\<close>, recorded just before such a callback is
  invoked with a change, is what the property \<open>name\<close> of object \<open>r\<close> reads as at that
  moment (the value stored in its value cell, if it is bound to one).\<close>

datatype event =
    InterceptorCalled nat will_change
  | SpyReportStart change
  | SpyReportEnd
  | ValueCommitted string jsval
  | ListenerNotified listener change
  | ComputedSetCalled string jsval
  | Readable ref string "jsval option"

text \<open>The state: the object store, the id counter behind \<open>getNextId\<close>, whether a spy
  is attached, the two module-level tables of lines 169 and 170, and the trace.\<close>

record state =
  objects :: "ref \<Rightarrow> js_object"
  mobxGuid :: nat
  spyEnabled :: bool
  observablePropertyConfigs :: "string \<rightharpoonup> prop_config"
  computedPropertyConfigs :: "string \<rightharpoonup> prop_config"
  trace :: "event list"

datatype error =
    NotExtensible
  | PropertyNotConfigurable
  | RedefinitionConflict
  | InvariantViolation
  | TypeError

text \<open>The first four errors are the failed \<open>invariant\<close> of line 68, of
  \<open>assertPropertyConfigurable\<close>, of line 82 and of line 51; \<open>TypeError\<close> is the
  exception the JavaScript runtime raises itself (a method called on \<open>undefined\<close>, a
  property defined on a non-extensible object).

  An exception carries the state at the throw: what was written before the throw stays
  written, and a caller that catches the exception goes on from that state.  A call
  returns \<open>Inr\<close> of its result or \<open>Inl\<close> of its failure; \<open>state_after\<close> is the state
  the call leaves either way.\<close>

type_synonym failure = "error \<times> state"

fun state_after :: "failure + state \<Rightarrow> state" where
  "state_after (Inl (e, st)) = st"
| "state_after (Inr st) = st"

subsection \<open>Dictionaries created by an object literal\<close>

text \<open>The tables \<open>values\<close> (line 39), \<open>observablePropertyConfigs\<close> and
  \<open>computedPropertyConfigs\<close> (lines 169, 170) are created by \<open>{}\<close>, so a read
  \<open>table[key]\<close> that finds no own entry continues in \<open>Object.prototype\<close>, whose
  members are all truthy.  Writing the key \<open>__proto__\<close> re-parents the table instead
  of adding an entry; that one write is outside the model.\<close>

definition object_prototype_members :: "string list" where
  "object_prototype_members =
     [''constructor'', ''hasOwnProperty'', ''isPrototypeOf'', ''propertyIsEnumerable'',
      ''toLocaleString'', ''toString'', ''valueOf'', ''__proto__'',
      ''__defineGetter__'', ''__defineSetter__'', ''__lookupGetter__'',
      ''__lookupSetter__'']"

datatype 'a lookup = Own 'a | Inherited | Missing

definition dict_get :: "(string \<rightharpoonup> 'a) \<Rightarrow> string \<Rightarrow> 'a lookup" where
  "dict_get table key =
     (case table key of
        Some v \<Rightarrow> Own v
      | None \<Rightarrow> if key \<in> set object_prototype_members then Inherited else Missing)"

fun truthy :: "'a lookup \<Rightarrow> bool" where
  "truthy (Own v) = True"
| "truthy Inherited = True"
| "truthy Missing = False"

subsection \<open>Collaborators outside this file\<close>

text \<open>The parts of the value cell and of the decorators that this file calls and that
  decide nothing here are parameters:
  \<^item> \<open>prepareNewValue cell v\<close> is the cell's coercion and equality policy; \<open>None\<close> is
    the \<open>UNCHANGED\<close> sentinel;
  \<^item> \<open>initialValue enhancer v name\<close> is the value a new \<open>ObservableValue\<close> stores;
  \<^item> \<open>runLazyInitializers st r\<close> runs the deferred field initializers of object \<open>r\<close>.\<close>

record collaborators =
  prepareNewValue :: "observable_value \<Rightarrow> jsval \<Rightarrow> jsval option"
  initialValue :: "enhancer \<Rightarrow> jsval \<Rightarrow> string \<Rightarrow> jsval"
  runLazyInitializers :: "state \<Rightarrow> ref \<Rightarrow> state"

definition emit :: "event list \<Rightarrow> state \<Rightarrow> state" where
  "emit evs st = st\<lparr>trace := trace st @ evs\<rparr>"

text \<open>Modelled from the spec: \<open>hasInterceptors\<close> and \<open>hasListeners\<close> of
  intercept-utils and listen-utils, existence checks on the two pipelines.\<close>

definition hasInterceptors :: "adm \<Rightarrow> bool" where
  "hasInterceptors a = (adm_interceptors a \<noteq> [])"

definition hasListeners :: "adm \<Rightarrow> bool" where
  "hasListeners a = (adm_changeListeners a \<noteq> [])"

text \<open>Modelled from the spec: \<open>interceptChange\<close> of intercept-utils.  The guards run
  in registration order, each on the change the previous one returned; the first
  cancellation halts the chain.  \<open>run_interceptors i hs c\<close> runs the guards \<open>hs\<close>, the
  first of which has position \<open>i\<close>, and returns the invocations with the outcome.\<close>

fun run_interceptors ::
  "nat \<Rightarrow> interceptor list \<Rightarrow> will_change \<Rightarrow> event list \<times> will_change option" where
  "run_interceptors i [] c = ([], Some c)"
| "run_interceptors i (h # hs) c =
     (case h c of
        None \<Rightarrow> ([InterceptorCalled i c], None)
      | Some c' \<Rightarrow>
          (case run_interceptors (Suc i) hs c' of
             (evs, r) \<Rightarrow> (InterceptorCalled i c # evs, r)))"

definition interceptChange :: "state \<Rightarrow> adm \<Rightarrow> will_change \<Rightarrow> state \<times> will_change option" where
  "interceptChange st a c =
     (case run_interceptors 0 (adm_interceptors a) c of
        (evs, r) \<Rightarrow> (emit evs st, r))"

text \<open>The value stored in the value cell that \<open>propName\<close> is bound to in the
  administration of object \<open>r\<close>: what the getter of line 180 returns.\<close>

definition stored_value :: "state \<Rightarrow> ref \<Rightarrow> string \<Rightarrow> jsval option" where
  "stored_value st r propName =
     (case mobx (objects st r) of
        ObjectAdministration a \<Rightarrow>
          (case adm_values a propName of
             Some (ObservableValue ov) \<Rightarrow> Some (ov_value ov)
           | _ \<Rightarrow> None)
      | _ \<Rightarrow> None)"

definition readable :: "state \<Rightarrow> change \<Rightarrow> event" where
  "readable st c =
     Readable (ch_object c) (ch_name c) (stored_value st (ch_object c) (ch_name c))"

text \<open>Modelled from the spec: \<open>notifyListeners\<close> of listen-utils delivers the change
  to every listener, in the state it is called in.\<close>

definition notifyListeners :: "state \<Rightarrow> adm \<Rightarrow> change \<Rightarrow> state" where
  "notifyListeners st a c =
     emit (concat (map (\<lambda>l. [readable st c, ListenerNotified l c]) (adm_changeListeners a))) st"

text \<open>Modelled from the spec: the tracing collaborator \<open>isSpyEnabled\<close>,
  \<open>spyReportStart\<close>, \<open>spyReportEnd\<close> of core/spy.  The start report hands the change
  to the spy; the end report carries no change.\<close>

definition isSpyEnabled :: "state \<Rightarrow> bool" where
  "isSpyEnabled st = spyEnabled st"

definition spyReportStart :: "state \<Rightarrow> change \<Rightarrow> state" where
  "spyReportStart st c = emit [readable st c, SpyReportStart c] st"

definition spyReportEnd :: "state \<Rightarrow> state" where
  "spyReportEnd st = emit [SpyReportEnd] st"

text \<open>Modelled from the spec: \<open>setNewValue\<close> of the value cell commits the value.  The
  cell is the one bound to \<open>name\<close> in the administration of \<open>instance\<close>.\<close>

definition set_cell :: "state \<Rightarrow> ref \<Rightarrow> string \<Rightarrow> cell \<Rightarrow> state" where
  "set_cell st r name c =
     (case mobx (objects st r) of
        ObjectAdministration a \<Rightarrow>
          st\<lparr>objects := (objects st)
               (r := (objects st r)\<lparr>mobx :=
                  ObjectAdministration (a\<lparr>adm_values := (adm_values a)(name \<mapsto> c)\<rparr>)\<rparr>)\<rparr>
      | _ \<Rightarrow> st)"

definition setNewValue :: "state \<Rightarrow> ref \<Rightarrow> string \<Rightarrow> observable_value \<Rightarrow> jsval \<Rightarrow> state" where
  "setNewValue st instance name ov v =
     emit [ValueCommitted (ov_name ov) v]
       (set_cell st instance name (ObservableValue (ov\<lparr>ov_value := v\<rparr>)))"

subsection \<open>The mutation router (lines 204 to 240)\<close>

text \<open>Lines 219 to 239: what follows the interception phase.  A cell that is not a
  value cell (no own entry, an inherited member, a computed cell) has no
  \<open>prepareNewValue\<close>, and the call at line 219 throws.\<close>

definition setPropertyValue_commit ::
  "collaborators \<Rightarrow> state \<Rightarrow> adm \<Rightarrow> ref \<Rightarrow> string \<Rightarrow> jsval \<Rightarrow> failure + state" where
  "setPropertyValue_commit E st a instance name newValue =
     (case dict_get (adm_values a) name of
        Own (ObservableValue observable) \<Rightarrow>
          (case prepareNewValue E observable newValue of
             None \<Rightarrow> Inr st
           | Some newValue' \<Rightarrow>
               (let notify = hasListeners a;
                    notifySpy = isSpyEnabled st;
                    c = \<lparr>ch_name = name, ch_object = instance, ch_type = Update,
                         ch_oldValue = Some (ov_value observable), ch_newValue = newValue'\<rparr>;
                    st1 = (if notifySpy then spyReportStart st c else st);
                    st2 = setNewValue st1 instance name observable newValue';
                    st3 = (if notify then notifyListeners st2 a c else st2);
                    st4 = (if notifySpy then spyReportEnd st3 else st3)
                in Inr st4))
      | _ \<Rightarrow> Inl (TypeError, st))"

definition setPropertyValue ::
  "collaborators \<Rightarrow> state \<Rightarrow> ref \<Rightarrow> string \<Rightarrow> jsval \<Rightarrow> failure + state" where
  "setPropertyValue E st instance name newValue =
     (case mobx (objects st instance) of
        ObjectAdministration a \<Rightarrow>
          (if hasInterceptors a then
             (case interceptChange st a
                     \<lparr>wc_object = instance, wc_type = Update, wc_name = name,
                      wc_newValue = newValue\<rparr> of
                (st1, None) \<Rightarrow> Inr st1
              | (st1, Some c) \<Rightarrow>
                  setPropertyValue_commit E st1 a instance name (wc_newValue c))
           else setPropertyValue_commit E st a instance name newValue)
      | _ \<Rightarrow> Inl (TypeError, st))"

subsection \<open>The accessor property generators (lines 169 to 202)\<close>

text \<open>The object literals of lines 176 to 185 and 192 to 201.\<close>

definition observablePropConfig :: "string \<Rightarrow> prop_config" where
  "observablePropConfig propName =
     \<lparr>cfg_configurable = True, cfg_enumerable = True,
      cfg_get = ObservableGetter propName, cfg_set = ObservableSetter propName\<rparr>"

definition computedPropConfig :: "string \<Rightarrow> prop_config" where
  "computedPropConfig propName =
     \<lparr>cfg_configurable = True, cfg_enumerable = False,
      cfg_get = ComputedGetter propName, cfg_set = ComputedSetter propName\<rparr>"

text \<open>What a generator returns and \<open>Object.defineProperty\<close> then receives: a
  configuration of the table, or the member of \<open>Object.prototype\<close> that the read at
  line 173 or 189 found.\<close>

datatype descriptor_arg = Config prop_config | PrototypeMember string

definition generateObservablePropConfig :: "state \<Rightarrow> string \<Rightarrow> state \<times> descriptor_arg" where
  "generateObservablePropConfig st propName =
     (case dict_get (observablePropertyConfigs st) propName of
        Own config \<Rightarrow> (st, Config config)
      | Inherited \<Rightarrow> (st, PrototypeMember propName)
      | Missing \<Rightarrow>
          (st\<lparr>observablePropertyConfigs :=
                (observablePropertyConfigs st)(propName \<mapsto> observablePropConfig propName)\<rparr>,
           Config (observablePropConfig propName)))"

definition generateComputedPropConfig :: "state \<Rightarrow> string \<Rightarrow> state \<times> descriptor_arg" where
  "generateComputedPropConfig st propName =
     (case dict_get (computedPropertyConfigs st) propName of
        Own config \<Rightarrow> (st, Config config)
      | Inherited \<Rightarrow> (st, PrototypeMember propName)
      | Missing \<Rightarrow>
          (st\<lparr>computedPropertyConfigs :=
                (computedPropertyConfigs st)(propName \<mapsto> computedPropConfig propName)\<rparr>,
           Config (computedPropConfig propName)))"

text \<open>Modelled from the spec: the computed cell's own \<open>set(value)\<close>; what it does is the
  cell's responsibility, so the call is recorded and nothing else happens.\<close>

definition computed_set :: "state \<Rightarrow> computed_value \<Rightarrow> jsval \<Rightarrow> state" where
  "computed_set st cv v = emit [ComputedSetCalled (cv_name cv) v] st"

text \<open>Calling a generated setter with \<open>this\<close> bound to an object (lines 182 to 184 and
  198 to 200).  The value cell of the spec has no \<open>set\<close>, so the computed setter on
  anything but a computed cell throws.\<close>

fun call_setter ::
  "collaborators \<Rightarrow> state \<Rightarrow> accessor_fn \<Rightarrow> ref \<Rightarrow> jsval \<Rightarrow> failure + state" where
  "call_setter E st (ObservableSetter propName) this v = setPropertyValue E st this propName v"
| "call_setter E st (ComputedSetter propName) this v =
     (case mobx (objects st this) of
        ObjectAdministration a \<Rightarrow>
          (case dict_get (adm_values a) propName of
             Own (ComputedValue cv) \<Rightarrow> Inr (computed_set st cv v)
           | _ \<Rightarrow> Inl (TypeError, st))
      | _ \<Rightarrow> Inl (TypeError, st))"
| "call_setter E st (ObservableGetter propName) this v = Inl (TypeError, st)"
| "call_setter E st (ComputedGetter propName) this v = Inl (TypeError, st)"

subsection \<open>Property operations of the host\<close>

text \<open>The assignment \<open>object[propName] = v\<close> in strict mode, on own properties.\<close>

definition put_property ::
  "collaborators \<Rightarrow> state \<Rightarrow> ref \<Rightarrow> string \<Rightarrow> jsval \<Rightarrow> failure + state" where
  "put_property E st r propName v =
     (case props (objects st r) propName of
        Some (AccessorProperty cfg) \<Rightarrow> call_setter E st (cfg_set cfg) r v
      | Some (DataProperty old w e c) \<Rightarrow>
          (if w then
             Inr (st\<lparr>objects := (objects st)
                    (r := (objects st r)\<lparr>props :=
                       (props (objects st r))(propName \<mapsto> DataProperty v w e c)\<rparr>)\<rparr>)
           else Inl (TypeError, st))
      | None \<Rightarrow>
          (if extensible (objects st r) then
             Inr (st\<lparr>objects := (objects st)
                    (r := (objects st r)\<lparr>props :=
                       (props (objects st r))(propName \<mapsto> DataProperty v True True True)\<rparr>)\<rparr>)
           else Inl (TypeError, st)))"

text \<open>\<open>Object.defineProperty(object, propName, d)\<close>.  A generated configuration is an
  accessor descriptor with \<open>configurable: true\<close>, which a non-configurable property
  rejects.  A member of \<open>Object.prototype\<close> has none of the descriptor fields: it
  leaves an existing property as it is and creates a missing one as a data property
  with value \<open>undefined\<close> and every attribute false.\<close>

definition defineProperty :: "state \<Rightarrow> ref \<Rightarrow> string \<Rightarrow> descriptor_arg \<Rightarrow> failure + state" where
  "defineProperty st r propName d =
     (case props (objects st r) propName of
        None \<Rightarrow>
          (if extensible (objects st r) then
             Inr (st\<lparr>objects := (objects st)
                    (r := (objects st r)\<lparr>props := (props (objects st r))
                       (propName \<mapsto>
                          (case d of
                             Config cfg \<Rightarrow> AccessorProperty cfg
                           | PrototypeMember m \<Rightarrow> DataProperty JUndefined False False False))\<rparr>)\<rparr>)
           else Inl (TypeError, st))
      | Some current \<Rightarrow>
          (case d of
             PrototypeMember m \<Rightarrow> Inr st
           | Config cfg \<Rightarrow>
               (if prop_configurable current then
                  Inr (st\<lparr>objects := (objects st)
                         (r := (objects st r)\<lparr>props :=
                            (props (objects st r))(propName \<mapsto> AccessorProperty cfg)\<rparr>)\<rparr>)
                else Inl (TypeError, st))))"

text \<open>Modelled from the spec: \<open>assertPropertyConfigurable\<close> of utils requires the
  property slot of the target to be configurable.\<close>

definition assertPropertyConfigurable :: "state \<Rightarrow> ref \<Rightarrow> string \<Rightarrow> failure + unit" where
  "assertPropertyConfigurable st r propName =
     (case props (objects st r) propName of
        None \<Rightarrow> Inr ()
      | Some p \<Rightarrow> if prop_configurable p then Inr () else Inl (PropertyNotConfigurable, st))"

subsection \<open>The predicate \<open>isObservableObject\<close> (lines 258 to 267)\<close>

text \<open>Modelled from the spec: \<open>isObject\<close> of utils.  A modifier descriptor and a
  computed value are objects too; they carry no \<open>$mobx\<close> slot and no deferred
  initializers.\<close>

fun isObject :: "jsval \<Rightarrow> bool" where
  "isObject (JObj r) = True"
| "isObject (JModifier v e) = True"
| "isObject (JComputed cv) = True"
| "isObject v = False"

fun isObservableObjectAdministration :: "mobx_slot \<Rightarrow> bool" where
  "isObservableObjectAdministration (ObjectAdministration a) = True"
| "isObservableObjectAdministration s = False"

definition isObservableObject :: "collaborators \<Rightarrow> state \<Rightarrow> jsval \<Rightarrow> state \<times> bool" where
  "isObservableObject E st thing =
     (if isObject thing then
        (case thing of
           JObj r \<Rightarrow>
             (let st' = runLazyInitializers E st r
              in (st', isObservableObjectAdministration (mobx (objects st' r))))
         | _ \<Rightarrow> (st, False))
      else (st, False))"

subsection \<open>The reactivation entry point \<open>asObservableObject\<close> (lines 64 to 77)\<close>

text \<open>The decimal digit for a number below ten.\<close>

definition digit_char :: "nat \<Rightarrow> char" where
  "digit_char n = ''0123456789'' ! n"

text \<open>The decimal numeral that string concatenation produces for a number.\<close>

function string_of_nat :: "nat \<Rightarrow> string" where
  "string_of_nat n =
     (if n < 10 then [digit_char n] else string_of_nat (n div 10) @ [digit_char (n mod 10)])"
  by pat_completeness auto
termination
  by (relation "measure id") auto

declare string_of_nat.simps [simp del]

text \<open>Modelled from the spec: the unique id generator \<open>getNextId\<close> of utils.\<close>

definition getNextId :: "state \<Rightarrow> state \<times> nat" where
  "getNextId st = (st\<lparr>mobxGuid := Suc (mobxGuid st)\<rparr>, Suc (mobxGuid st))"

text \<open>Modelled from the spec: \<open>isPlainObject\<close> of utils, the test for a plain
  structural record.\<close>

definition isPlainObject :: "js_object \<Rightarrow> bool" where
  "isPlainObject ob = (class_name ob = None)"

text \<open>\<open>target.constructor.name\<close>: the class name, \<open>Object\<close> for a plain record.\<close>

definition constructor_name :: "js_object \<Rightarrow> string" where
  "constructor_name ob = (case class_name ob of Some cn \<Rightarrow> cn | None \<Rightarrow> ''Object'')"

text \<open>Modelled from the spec: \<open>addHiddenFinalProp\<close> of utils installs the hidden
  field; the target is extensible where it is called.\<close>

definition addHiddenFinalProp :: "state \<Rightarrow> ref \<Rightarrow> adm \<Rightarrow> state" where
  "addHiddenFinalProp st r a =
     st\<lparr>objects := (objects st)(r := (objects st r)\<lparr>mobx := ObjectAdministration a\<rparr>)\<rparr>"

text \<open>The target is a reference to an object of the store; \<open>name\<close> is \<open>None\<close> when
  the caller passes none.  The empty string is falsy at line 71, as \<open>undefined\<close> is.\<close>

definition asObservableObject ::
  "collaborators \<Rightarrow> state \<Rightarrow> ref \<Rightarrow> string option \<Rightarrow> failure + state \<times> adm" where
  "asObservableObject E st target name =
     (case isObservableObject E st (JObj target) of
        (st0, True) \<Rightarrow>
          (case mobx (objects st0 target) of
             ObjectAdministration a \<Rightarrow> Inr (st0, a)
           | _ \<Rightarrow> Inl (TypeError, st0))
      | (st0, False) \<Rightarrow>
          (if \<not> extensible (objects st0 target) then Inl (NotExtensible, st0)
           else
             (let (st1, name1) =
                    (if \<not> isPlainObject (objects st0 target) then
                       (case getNextId st0 of
                          (s, n) \<Rightarrow>
                            (s, Some ((if constructor_name (objects st0 target) = []
                                       then ''ObservableObject''
                                       else constructor_name (objects st0 target))
                                      @ ''@'' @ string_of_nat n)))
                     else (st0, name));
                  (st2, name2) =
                    (case (if name1 = Some [] then None else name1) of
                       None \<Rightarrow>
                         (case getNextId st1 of
                            (s, n) \<Rightarrow> (s, ''ObservableObject@'' @ string_of_nat n))
                     | Some given \<Rightarrow> (st1, given));
                  a = \<lparr>adm_values = Map.empty, adm_changeListeners = [],
                       adm_interceptors = [], adm_target = target, adm_name = name2\<rparr>
              in Inr (addHiddenFinalProp st2 target a, a))))"

subsection \<open>The property installers (lines 79 to 167 and 242 to 256)\<close>

definition notifyPropertyAddition :: "state \<Rightarrow> adm \<Rightarrow> ref \<Rightarrow> string \<Rightarrow> jsval \<Rightarrow> state" where
  "notifyPropertyAddition st a object name newValue =
     (let notify = hasListeners a;
          notifySpy = isSpyEnabled st;
          c = \<lparr>ch_name = name, ch_object = object, ch_type = Add,
               ch_oldValue = None, ch_newValue = newValue\<rparr>;
          st1 = (if notifySpy then spyReportStart st c else st);
          st2 = (if notify then notifyListeners st1 a c else st1);
          st3 = (if notifySpy then spyReportEnd st2 else st2)
      in st3)"

text \<open>The label of a cell, the template string of lines 132, 152 and 159.\<close>

definition cell_name :: "adm \<Rightarrow> string \<Rightarrow> string" where
  "cell_name a propName = adm_name a @ ''.'' @ propName"

text \<open>Modelled from the spec: the constructor of the value cell, which stores the
  value its coercion makes of the initial one.\<close>

definition new_ObservableValue ::
  "collaborators \<Rightarrow> jsval \<Rightarrow> enhancer \<Rightarrow> string \<Rightarrow> observable_value" where
  "new_ObservableValue E v enhancer name =
     \<lparr>ov_value = initialValue E enhancer v name, ov_enhancer = enhancer, ov_name = name\<rparr>"

text \<open>An administration is passed as the reference \<open>r\<close> of the object whose \<open>$mobx\<close>
  slot holds it.  Lines 132 to 138 of \<open>defineObservableProperty\<close>:\<close>

definition defineObservableProperty_install ::
  "collaborators \<Rightarrow> state \<Rightarrow> ref \<Rightarrow> adm \<Rightarrow> string \<Rightarrow> jsval \<Rightarrow> enhancer \<Rightarrow> bool \<Rightarrow> failure + state" where
  "defineObservableProperty_install E st r a propName newValue enhancer asInstanceProperty =
     (let observable = new_ObservableValue E newValue enhancer (cell_name a propName);
          st1 = set_cell st r propName (ObservableValue observable);
          newValue' = ov_value observable
      in (case (if asInstanceProperty then
                  (case generateObservablePropConfig st1 propName of
                     (st2, config) \<Rightarrow> defineProperty st2 (adm_target a) propName config)
                else Inr st1) of
            Inl e \<Rightarrow> Inl e
          | Inr st3 \<Rightarrow> Inr (notifyPropertyAddition st3 a (adm_target a) propName newValue')))"

definition defineObservableProperty ::
  "collaborators \<Rightarrow> state \<Rightarrow> ref \<Rightarrow> string \<Rightarrow> jsval \<Rightarrow> enhancer \<Rightarrow> bool \<Rightarrow> failure + state" where
  "defineObservableProperty E st r propName newValue enhancer asInstanceProperty =
     (case mobx (objects st r) of
        ObjectAdministration a \<Rightarrow>
          (case (if asInstanceProperty
                 then assertPropertyConfigurable st (adm_target a) propName else Inr ()) of
             Inl e \<Rightarrow> Inl e
           | Inr u \<Rightarrow>
               (if hasInterceptors a then
                  (case interceptChange st a
                          \<lparr>wc_object = adm_target a, wc_type = Add, wc_name = propName,
                           wc_newValue = newValue\<rparr> of
                     (st1, None) \<Rightarrow> Inr st1
                   | (st1, Some c) \<Rightarrow>
                       defineObservableProperty_install E st1 r a propName (wc_newValue c)
                         enhancer asInstanceProperty)
                else defineObservableProperty_install E st r a propName newValue
                       enhancer asInstanceProperty))
      | _ \<Rightarrow> Inl (TypeError, st))"

text \<open>Lines 152 to 155 and 164 to 166: bind the computed cell, then define the
  accessor.  A pre-built computed value is carried by value, so the writes of lines 160
  to 162 show in the bound cell only.\<close>

definition bind_computed :: "state \<Rightarrow> ref \<Rightarrow> adm \<Rightarrow> string \<Rightarrow> computed_value \<Rightarrow> bool \<Rightarrow> failure + state" where
  "bind_computed st r a propName cv asInstanceProperty =
     (let st1 = set_cell st r propName (ComputedValue cv)
      in if asInstanceProperty then
           (case generateComputedPropConfig st1 propName of
              (st2, config) \<Rightarrow> defineProperty st2 (adm_target a) propName config)
         else Inr st1)"

definition defineComputedProperty ::
  "state \<Rightarrow> ref \<Rightarrow> string \<Rightarrow> fn option \<Rightarrow> fn option \<Rightarrow> bool \<Rightarrow> bool \<Rightarrow> failure + state" where
  "defineComputedProperty st r propName getter setter compareStructural asInstanceProperty =
     (case mobx (objects st r) of
        ObjectAdministration a \<Rightarrow>
          (case (if asInstanceProperty
                 then assertPropertyConfigurable st (adm_target a) propName else Inr ()) of
             Inl e \<Rightarrow> Inl e
           | Inr u \<Rightarrow>
               bind_computed st r a propName
                 \<lparr>cv_getter = getter, cv_scope = Some (adm_target a),
                  cv_compareStructural = compareStructural,
                  cv_name = cell_name a propName, cv_setter = setter\<rparr>
                 asInstanceProperty)
      | _ \<Rightarrow> Inl (TypeError, st))"

definition defineComputedPropertyFromComputedValue ::
  "state \<Rightarrow> ref \<Rightarrow> string \<Rightarrow> computed_value \<Rightarrow> bool \<Rightarrow> failure + state" where
  "defineComputedPropertyFromComputedValue st r propName computedValue asInstanceProperty =
     (case mobx (objects st r) of
        ObjectAdministration a \<Rightarrow>
          bind_computed st r a propName
            (computedValue
               \<lparr>cv_name := cell_name a propName,
                cv_scope := (case cv_scope computedValue of
                               None \<Rightarrow> Some (adm_target a)
                             | Some s \<Rightarrow> Some s)\<rparr>)
            asInstanceProperty
      | _ \<Rightarrow> Inl (TypeError, st))"

text \<open>A property descriptor: with a \<open>value\<close> field, or with \<open>get\<close> and \<open>set\<close>.\<close>

datatype descriptor = DataDescriptor jsval | AccessorDescriptor "fn option" "fn option"

definition defineObservablePropertyFromDescriptor ::
  "collaborators \<Rightarrow> state \<Rightarrow> ref \<Rightarrow> string \<Rightarrow> descriptor \<Rightarrow> enhancer \<Rightarrow> failure + state" where
  "defineObservablePropertyFromDescriptor E st r propName descriptor defaultEnhancer =
     (case mobx (objects st r) of
        ObjectAdministration a \<Rightarrow>
          (if truthy (dict_get (adm_values a) propName) then
             (case descriptor of
                AccessorDescriptor g s \<Rightarrow> Inl (RedefinitionConflict, st)
              | DataDescriptor v \<Rightarrow> put_property E st (adm_target a) propName v)
           else
             (case descriptor of
                DataDescriptor v \<Rightarrow>
                  (case v of
                     JModifier initial enhancer \<Rightarrow>
                       defineObservableProperty E st r propName initial enhancer True
                   | JComputed cv \<Rightarrow>
                       defineComputedPropertyFromComputedValue st r propName cv True
                   | _ \<Rightarrow> defineObservableProperty E st r propName v defaultEnhancer True)
              | AccessorDescriptor g s \<Rightarrow>
                  defineComputedProperty st r propName g s False True))
      | _ \<Rightarrow> Inl (TypeError, st))"

subsection \<open>Observations used to state the properties\<close>

datatype cell_kind = ValueCell | ComputedCell

fun kind_of :: "cell \<Rightarrow> cell_kind" where
  "kind_of (ObservableValue ov) = ValueCell"
| "kind_of (ComputedValue cv) = ComputedCell"

text \<open>The kind of the cell that \<open>propName\<close> is bound to in the administration of
  object \<open>r\<close>.\<close>

definition bound_kind :: "state \<Rightarrow> ref \<Rightarrow> string \<Rightarrow> cell_kind option" where
  "bound_kind st r propName =
     (case mobx (objects st r) of
        ObjectAdministration a \<Rightarrow> map_option kind_of (adm_values a propName)
      | _ \<Rightarrow> None)"

fun is_interceptor_call :: "event \<Rightarrow> bool" where
  "is_interceptor_call (InterceptorCalled i c) = True"
| "is_interceptor_call e = False"

fun is_notification :: "event \<Rightarrow> bool" where
  "is_notification (ListenerNotified l c) = True"
| "is_notification e = False"

text \<open>The events a call appended to the trace.\<close>

definition new_events :: "state \<Rightarrow> state \<Rightarrow> event list" where
  "new_events st st' = drop (length (trace st)) (trace st')"

text \<open>The change record of lines 225 to 230.\<close>

definition update_change :: "ref \<Rightarrow> string \<Rightarrow> jsval \<Rightarrow> jsval \<Rightarrow> change" where
  "update_change r name old new =
     \<lparr>ch_name = name, ch_object = r, ch_type = Update,
      ch_oldValue = Some old, ch_newValue = new\<rparr>"

text \<open>The events of a committing write, in order: the spy start report if a spy is
  attached, the commit, one notification per listener, the spy end report if a spy is
  attached.  The spy reads the value \<open>old\<close> at the start report and every listener reads
  the value \<open>new\<close>.\<close>

definition commit_events ::
  "bool \<Rightarrow> listener list \<Rightarrow> ref \<Rightarrow> string \<Rightarrow> string \<Rightarrow> jsval \<Rightarrow> jsval \<Rightarrow> event list" where
  "commit_events spy listeners r name label old new =
     (if spy then [Readable r name (Some old), SpyReportStart (update_change r name old new)]
      else [])
     @ [ValueCommitted label new]
     @ concat (map (\<lambda>l. [Readable r name (Some new),
                            ListenerNotified l (update_change r name old new)]) listeners)
     @ (if spy then [SpyReportEnd] else [])"

text \<open>Every entry of the two module-level tables is the configuration generated for
  its key; lines 176 and 192 are the only writes to them.\<close>

definition configs_generated :: "state \<Rightarrow> bool" where
  "configs_generated st \<longleftrightarrow>
     (\<forall>k c. observablePropertyConfigs st k = Some c \<longrightarrow> c = observablePropConfig k)
   \<and> (\<forall>k c. computedPropertyConfigs st k = Some c \<longrightarrow> c = computedPropConfig k)"

text \<open>A sequence of declarations through \<open>defineObservablePropertyFromDescriptor\<close>,
  each given by the object that holds the administration, the property name, the
  descriptor and the default enhancer.  A declaration that throws leaves the state at
  the throw, and the sequence goes on from there; a caller that stops at the first
  exception is left with the state of a shorter sequence.\<close>

type_synonym install = "ref \<times> string \<times> descriptor \<times> enhancer"

primrec install_all :: "collaborators \<Rightarrow> state \<Rightarrow> install list \<Rightarrow> state" where
  "install_all E st [] = st"
| "install_all E st (op # ops) =
     (case op of
        (r, p, d, e) \<Rightarrow>
          install_all E
            (state_after (defineObservablePropertyFromDescriptor E st r p d e)) ops)"

subsection \<open>The methods \<open>observe\<close> and \<open>intercept\<close> (lines 50 to 57)\<close>

text \<open>Modelled from the spec: \<open>registerListener\<close> and \<open>registerInterceptor\<close> append the
  callback to the pipeline; the cancellation handle they return is not modelled.\<close>

definition observe :: "state \<Rightarrow> ref \<Rightarrow> listener \<Rightarrow> bool option \<Rightarrow> failure + state" where
  "observe st r callback fireImmediately =
     (if fireImmediately = Some True then Inl (InvariantViolation, st)
      else
        (case mobx (objects st r) of
           ObjectAdministration a \<Rightarrow>
             Inr (st\<lparr>objects := (objects st)
                    (r := (objects st r)\<lparr>mobx := ObjectAdministration
                       (a\<lparr>adm_changeListeners := adm_changeListeners a @ [callback]\<rparr>)\<rparr>)\<rparr>)
         | _ \<Rightarrow> Inl (TypeError, st)))"

definition intercept :: "state \<Rightarrow> ref \<Rightarrow> interceptor \<Rightarrow> failure + state" where
  "intercept st r handler =
     (case mobx (objects st r) of
        ObjectAdministration a \<Rightarrow>
          Inr (st\<lparr>objects := (objects st)
                 (r := (objects st r)\<lparr>mobx := ObjectAdministration
                    (a\<lparr>adm_interceptors := adm_interceptors a @ [handler]\<rparr>)\<rparr>)\<rparr>)
      | _ \<Rightarrow> Inl (TypeError, st))"

subsection \<open>Example cells, interceptors and states\<close>

text \<open>A value cell that stores what it is given and reports \<open>UNCHANGED\<close> when the
  candidate equals the stored value; no deferred initializers.\<close>

definition reference_cells :: collaborators where
  "reference_cells =
     \<lparr>prepareNewValue = (\<lambda>ov v. if v = ov_value ov then None else Some v),
      initialValue = (\<lambda>e v n. v),
      runLazyInitializers = (\<lambda>st r. st)\<rparr>"

definition veto :: interceptor where
  "veto c = None"

definition times_ten :: interceptor where
  "times_ten c =
     (case wc_newValue c of
        JNum n \<Rightarrow> Some (c\<lparr>wc_newValue := JNum (10 * n)\<rparr>)
      | _ \<Rightarrow> Some c)"

definition fresh_object :: js_object where
  "fresh_object =
     \<lparr>class_name = None, extensible = True, props = Map.empty, mobx = NoAdministration\<rparr>"

definition initial_state :: state where
  "initial_state =
     \<lparr>objects = (\<lambda>r. fresh_object), mobxGuid = 0, spyEnabled = False,
      observablePropertyConfigs = Map.empty, computedPropertyConfigs = Map.empty,
      trace = []\<rparr>"

text \<open>Object 0 is an instance of a class \<open>Todo\<close>.\<close>

definition todo_state :: state where
  "todo_state = initial_state
     \<lparr>objects := (objects initial_state)(0 := fresh_object\<lparr>class_name := Some ''Todo''\<rparr>)\<rparr>"

text \<open>Object 0 after \<open>asObservableObject(target, "Point")\<close>.\<close>

definition empty_point_adm :: adm where
  "empty_point_adm =
     \<lparr>adm_values = Map.empty, adm_changeListeners = [], adm_interceptors = [],
      adm_target = 0, adm_name = ''Point''\<rparr>"

definition empty_point_state :: state where
  "empty_point_state = initial_state
     \<lparr>objects := (objects initial_state)
        (0 := fresh_object\<lparr>mobx := ObjectAdministration empty_point_adm\<rparr>)\<rparr>"

text \<open>The same object with the observable field \<open>x = 1\<close> installed, with the given
  interceptors and listeners registered and the spy attached or not.\<close>

definition x_cell :: observable_value where
  "x_cell = \<lparr>ov_value = JNum 1, ov_enhancer = Enhancer 0, ov_name = ''Point.x''\<rparr>"

definition point_adm :: "interceptor list \<Rightarrow> listener list \<Rightarrow> adm" where
  "point_adm hs ls =
     \<lparr>adm_values = [''x'' \<mapsto> ObservableValue x_cell],
      adm_changeListeners = ls, adm_interceptors = hs, adm_target = 0,
      adm_name = ''Point''\<rparr>"

definition point_state :: "interceptor list \<Rightarrow> listener list \<Rightarrow> bool \<Rightarrow> state" where
  "point_state hs ls spy =
     \<lparr>objects = (\<lambda>r. fresh_object)
        (0 := \<lparr>class_name = None, extensible = True,
               props = [''x'' \<mapsto> AccessorProperty (observablePropConfig ''x'')],
               mobx = ObjectAdministration (point_adm hs ls)\<rparr>),
      mobxGuid = 0, spyEnabled = spy,
      observablePropertyConfigs = [''x'' \<mapsto> observablePropConfig ''x''],
      computedPropertyConfigs = Map.empty, trace = []\<rparr>"

text \<open>The object with a computed field \<open>sum\<close> installed from a getter and a setter.\<close>

definition sum_cell :: computed_value where
  "sum_cell =
     \<lparr>cv_getter = Some 1, cv_scope = Some 0, cv_compareStructural = False,
      cv_name = ''Point.sum'', cv_setter = Some 2\<rparr>"

definition sum_adm :: "interceptor list \<Rightarrow> adm" where
  "sum_adm hs =
     \<lparr>adm_values = [''sum'' \<mapsto> ComputedValue sum_cell],
      adm_changeListeners = [], adm_interceptors = hs, adm_target = 0,
      adm_name = ''Point''\<rparr>"

definition sum_state :: "interceptor list \<Rightarrow> state" where
  "sum_state hs =
     \<lparr>objects = (\<lambda>r. fresh_object)
        (0 := \<lparr>class_name = None, extensible = True,
               props = [''sum'' \<mapsto> AccessorProperty (computedPropConfig ''sum'')],
               mobx = ObjectAdministration (sum_adm hs)\<rparr>),
      mobxGuid = 0, spyEnabled = False,
      observablePropertyConfigs = Map.empty,
      computedPropertyConfigs = [''sum'' \<mapsto> computedPropConfig ''sum''], trace = []\<rparr>"

text \<open>Deferred initializers that attach the administration of \<open>Point\<close>.\<close>

definition deferred_fields :: collaborators where
  "deferred_fields = reference_cells
     \<lparr>runLazyInitializers := (\<lambda>st r. addHiddenFinalProp st r empty_point_adm)\<rparr>"

section \<open>Properties\<close>

subsection \<open>The example states are reachable\<close>

lemma empty_point_state_reachable:
  "asObservableObject reference_cells initial_state 0 (Some ''Point'')
     = Inr (empty_point_state, empty_point_adm)"
  by (simp add: asObservableObject_def isObservableObject_def reference_cells_def
      initial_state_def fresh_object_def isPlainObject_def addHiddenFinalProp_def
      empty_point_state_def empty_point_adm_def Let_def)

lemma point_state_reachable:
  "defineObservablePropertyFromDescriptor reference_cells empty_point_state 0 ''x''
     (DataDescriptor (JNum 1)) (Enhancer 0)
   = Inr (point_state [] [] False)"
  by (simp add: reference_cells_def empty_point_state_def empty_point_adm_def
      initial_state_def fresh_object_def
      defineObservablePropertyFromDescriptor_def dict_get_def object_prototype_members_def
      defineObservableProperty_def assertPropertyConfigurable_def hasInterceptors_def
      defineObservableProperty_install_def new_ObservableValue_def cell_name_def set_cell_def
      generateObservablePropConfig_def defineProperty_def notifyPropertyAddition_def
      hasListeners_def isSpyEnabled_def point_state_def point_adm_def x_cell_def Let_def)

lemma point_state_registered:
  "intercept (point_state [] [] False) 0 h = Inr (point_state [h] [] False)"
  "observe (point_state hs [] False) 0 l None = Inr (point_state hs [l] False)"
  by (simp_all add: intercept_def observe_def point_state_def point_adm_def)

lemma sum_state_reachable:
  "defineObservablePropertyFromDescriptor reference_cells empty_point_state 0 ''sum''
     (AccessorDescriptor (Some 1) (Some 2)) (Enhancer 0)
   = Inr (sum_state [])"
  by (simp add: reference_cells_def empty_point_state_def empty_point_adm_def
      initial_state_def fresh_object_def
      defineObservablePropertyFromDescriptor_def dict_get_def object_prototype_members_def
      defineComputedProperty_def assertPropertyConfigurable_def bind_computed_def cell_name_def
      set_cell_def generateComputedPropConfig_def defineProperty_def sum_state_def
      sum_adm_def sum_cell_def Let_def)

subsection \<open>The interception chain\<close>

lemma emit_Nil: "emit [] st = st"
  by (simp add: emit_def)

lemma run_interceptors_events:
  "run_interceptors i hs c = (evs, res) \<Longrightarrow> \<forall>e \<in> set evs. is_interceptor_call e"
proof (induction hs arbitrary: i c evs res)
  case Nil
  then show ?case by simp
next
  case (Cons h hs)
  show ?case
  proof (cases "h c")
    case None
    with Cons.prems show ?thesis by auto
  next
    case (Some c')
    obtain evs' res' where rest: "run_interceptors (Suc i) hs c' = (evs', res')"
      by (cases "run_interceptors (Suc i) hs c'")
    with Some Cons.prems have "evs = InterceptorCalled i c # evs'"
      by simp
    moreover from Cons.IH [OF rest] have "\<forall>e \<in> set evs'. is_interceptor_call e" .
    ultimately show ?thesis by simp
  qed
qed

lemma run_interceptors_None_nonempty:
  "run_interceptors i hs c = (evs, None) \<Longrightarrow> hs \<noteq> []"
  by (cases hs) auto

text \<open>The positions recorded by a run starting at position \<open>i\<close> are at least \<open>i\<close>.\<close>

lemma run_interceptors_positions:
  "InterceptorCalled j c' \<in> set (fst (run_interceptors i hs c)) \<Longrightarrow> i \<le> j"
proof (induction hs arbitrary: i c)
  case Nil
  then show ?case by simp
next
  case (Cons h hs)
  show ?case
  proof (cases "h c")
    case None
    with Cons.prems show ?thesis by simp
  next
    case (Some d)
    with Cons.prems have "j = i \<or> InterceptorCalled j c' \<in> set (fst (run_interceptors (Suc i) hs d))"
      by (auto split: prod.splits)
    then show ?thesis
    proof
      assume "j = i"
      then show ?thesis by simp
    next
      assume "InterceptorCalled j c' \<in> set (fst (run_interceptors (Suc i) hs d))"
      from Cons.IH [OF this] show ?thesis by simp
    qed
  qed
qed

text \<open>The chain vetoes exactly when some guard that was invoked returned nothing on the
  change it received.\<close>

lemma run_interceptors_veto_iff:
  "snd (run_interceptors i hs c) = None \<longleftrightarrow>
     (\<exists>j c'. j < length hs
        \<and> InterceptorCalled (i + j) c' \<in> set (fst (run_interceptors i hs c))
        \<and> (hs ! j) c' = None)"
proof (induction hs arbitrary: i c)
  case Nil
  then show ?case by simp
next
  case (Cons h hs)
  show ?case
  proof (cases "h c")
    case None
    then have "0 < length (h # hs) \<and> InterceptorCalled (i + 0) c
          \<in> set (fst (run_interceptors i (h # hs) c)) \<and> ((h # hs) ! 0) c = None"
      by simp
    then have "\<exists>j c'. j < length (h # hs)
        \<and> InterceptorCalled (i + j) c' \<in> set (fst (run_interceptors i (h # hs) c))
        \<and> ((h # hs) ! j) c' = None"
      by blast
    with None show ?thesis by simp
  next
    case (Some d)
    have fst_eq: "fst (run_interceptors i (h # hs) c)
        = InterceptorCalled i c # fst (run_interceptors (Suc i) hs d)"
      using Some by (simp split: prod.splits)
    have snd_eq: "snd (run_interceptors i (h # hs) c) = snd (run_interceptors (Suc i) hs d)"
      using Some by (simp split: prod.splits)
    show ?thesis
    proof
      assume "snd (run_interceptors i (h # hs) c) = None"
      with snd_eq Cons.IH [of "Suc i" d] obtain j c' where
        j: "j < length hs"
        and ev: "InterceptorCalled (Suc i + j) c' \<in> set (fst (run_interceptors (Suc i) hs d))"
        and none: "(hs ! j) c' = None"
        by auto
      from j ev none fst_eq
      have "Suc j < length (h # hs)
          \<and> InterceptorCalled (i + Suc j) c' \<in> set (fst (run_interceptors i (h # hs) c))
          \<and> ((h # hs) ! Suc j) c' = None"
        by simp
      then show "\<exists>j c'. j < length (h # hs)
          \<and> InterceptorCalled (i + j) c' \<in> set (fst (run_interceptors i (h # hs) c))
          \<and> ((h # hs) ! j) c' = None"
        by blast
    next
      assume "\<exists>j c'. j < length (h # hs)
          \<and> InterceptorCalled (i + j) c' \<in> set (fst (run_interceptors i (h # hs) c))
          \<and> ((h # hs) ! j) c' = None"
      then obtain j c' where j: "j < length (h # hs)"
        and ev: "InterceptorCalled (i + j) c' \<in> set (fst (run_interceptors i (h # hs) c))"
        and none: "((h # hs) ! j) c' = None"
        by blast
      show "snd (run_interceptors i (h # hs) c) = None"
      proof (cases j)
        case 0
        with ev fst_eq have "c' = c \<or> InterceptorCalled i c' \<in> set (fst (run_interceptors (Suc i) hs d))"
          by auto
        then have "c' = c"
          using run_interceptors_positions [of i c' "Suc i" hs d] by auto
        with 0 none Some show ?thesis by simp
      next
        case (Suc k)
        with j ev none fst_eq have "k < length hs
            \<and> InterceptorCalled (Suc i + k) c' \<in> set (fst (run_interceptors (Suc i) hs d))
            \<and> (hs ! k) c' = None"
          by simp
        then have "snd (run_interceptors (Suc i) hs d) = None"
          using Cons.IH [of "Suc i" d] by blast
        with snd_eq show ?thesis by simp
      qed
    qed
  qed
qed

subsection \<open>The mutation router\<close>

text \<open>With no guard registered the chain returns the change as it is, so the two
  branches of line 209 read as one.\<close>

lemma setPropertyValue_phases:
  assumes "mobx (objects st r) = ObjectAdministration a"
  shows "setPropertyValue E st r name v =
     (case run_interceptors 0 (adm_interceptors a)
             \<lparr>wc_object = r, wc_type = Update, wc_name = name, wc_newValue = v\<rparr> of
        (evs, None) \<Rightarrow> Inr (emit evs st)
      | (evs, Some c) \<Rightarrow> setPropertyValue_commit E (emit evs st) a r name (wc_newValue c))"
proof (cases "adm_interceptors a = []")
  case True
  with assms show ?thesis
    by (simp add: setPropertyValue_def hasInterceptors_def emit_Nil)
next
  case False
  with assms show ?thesis
    by (simp add: setPropertyValue_def hasInterceptors_def interceptChange_def
        split: prod.splits option.splits)
qed

text \<open>What a committing write appends to the trace after the interceptor invocations:
  \<open>old\<close> and \<open>new\<close> are the values the cell stores before and after the commit.\<close>

lemma stored_value_slot:
  "mobx (objects st r) = ObjectAdministration a \<Longrightarrow>
   stored_value st r name =
     (case adm_values a name of Some (ObservableValue ov) \<Rightarrow> Some (ov_value ov) | _ \<Rightarrow> None)"
  by (simp add: stored_value_def)

lemma setPropertyValue_commit_result:
  assumes "mobx (objects st r) = ObjectAdministration a"
    and "dict_get (adm_values a) name = Own (ObservableValue ov)"
    and "prepareNewValue E ov w = Some nv"
  shows "setPropertyValue_commit E st a r name w =
     Inr (emit (commit_events (spyEnabled st) (adm_changeListeners a) r name (ov_name ov)
                  (ov_value ov) nv)
            (set_cell st r name (ObservableValue (ov\<lparr>ov_value := nv\<rparr>))))"
proof -
  have own: "adm_values a name = Some (ObservableValue ov)"
    using assms(2) by (simp add: dict_get_def split: option.splits if_splits)
  let ?c = "update_change r name (ov_value ov) nv"
  have before: "readable st ?c = Readable r name (Some (ov_value ov))"
    using assms(1) own by (simp add: readable_def update_change_def stored_value_slot)
  have after: "\<And>evs. readable
        (emit evs (set_cell st r name (ObservableValue (ov\<lparr>ov_value := nv\<rparr>)))) ?c
      = Readable r name (Some nv)"
    using assms(1)
    by (simp add: readable_def update_change_def stored_value_def set_cell_def emit_def)
  show ?thesis
  proof (cases "spyEnabled st")
    case True
    with assms(2,3) before after [of "[Readable r name (Some (ov_value ov)), SpyReportStart ?c,
        ValueCommitted (ov_name ov) nv]"] after [of "[ValueCommitted (ov_name ov) nv]"]
    show ?thesis
      by (simp add: setPropertyValue_commit_def Let_def hasListeners_def isSpyEnabled_def
          spyReportStart_def spyReportEnd_def notifyListeners_def setNewValue_def
          commit_events_def emit_def set_cell_def assms(1)
          update_change_def [symmetric])
  next
    case False
    with assms(2,3) before after [of "[ValueCommitted (ov_name ov) nv]"]
    show ?thesis
      by (simp add: setPropertyValue_commit_def Let_def hasListeners_def isSpyEnabled_def
          spyReportStart_def spyReportEnd_def notifyListeners_def setNewValue_def
          commit_events_def emit_def set_cell_def assms(1)
          update_change_def [symmetric])
  qed
qed

lemma setPropertyValue_commits:
  assumes slot: "mobx (objects st r) = ObjectAdministration a"
    and cell: "dict_get (adm_values a) name = Own (ObservableValue ov)"
    and chain: "run_interceptors 0 (adm_interceptors a)
           \<lparr>wc_object = r, wc_type = Update, wc_name = name, wc_newValue = v\<rparr>
         = (evs, Some c)"
    and prep: "prepareNewValue E ov (wc_newValue c) = Some nv"
  shows "setPropertyValue E st r name v =
     Inr (emit (commit_events (spyEnabled st) (adm_changeListeners a) r name (ov_name ov)
                  (ov_value ov) nv)
            (set_cell (emit evs st) r name (ObservableValue (ov\<lparr>ov_value := nv\<rparr>))))"
proof -
  have slot': "mobx (objects (emit evs st) r) = ObjectAdministration a"
    using slot by (simp add: emit_def)
  have "setPropertyValue E st r name v =
      setPropertyValue_commit E (emit evs st) a r name (wc_newValue c)"
    using slot chain by (simp add: setPropertyValue_phases)
  also have "\<dots> =
      Inr (emit (commit_events (spyEnabled (emit evs st)) (adm_changeListeners a) r name
                   (ov_name ov) (ov_value ov) nv)
             (set_cell (emit evs st) r name (ObservableValue (ov\<lparr>ov_value := nv\<rparr>))))"
    using slot' cell prep by (rule setPropertyValue_commit_result)
  finally show ?thesis by (simp add: emit_def)
qed

lemma trace_set_cell: "trace (set_cell st r name c) = trace st"
  by (simp add: set_cell_def split: mobx_slot.splits)

lemma trace_emit: "trace (emit evs st) = trace st @ evs"
  by (simp add: emit_def)

lemma mobx_emit: "mobx (objects (emit evs st) r) = mobx (objects st r)"
  by (simp add: emit_def)

lemma stored_value_emit: "stored_value (emit evs st) r name = stored_value st r name"
  by (simp add: emit_def stored_value_def)

lemma stored_value_set_cell:
  "mobx (objects st r) = ObjectAdministration a \<Longrightarrow>
   stored_value (set_cell st r name (ObservableValue ov)) r name = Some (ov_value ov)"
  by (simp add: set_cell_def stored_value_def)

lemma dict_get_Own: "dict_get t k = Own v \<longleftrightarrow> t k = Some v"
  by (simp add: dict_get_def split: option.splits)

lemma filter_notification_interceptor_calls:
  "\<forall>e \<in> set evs. is_interceptor_call e \<Longrightarrow> filter is_notification evs = []"
proof (induction evs)
  case Nil
  then show ?case by simp
next
  case (Cons e evs)
  then show ?case by (cases e) simp_all
qed

lemma filter_notification_commit_events:
  "filter is_notification (commit_events spy ls r name label old new)
     = map (\<lambda>l. ListenerNotified l (update_change r name old new)) ls"
proof -
  have "filter is_notification
          (concat (map (\<lambda>l. [Readable r name (Some new),
                                 ListenerNotified l (update_change r name old new)]) ls))
      = map (\<lambda>l. ListenerNotified l (update_change r name old new)) ls"
    by (induction ls) simp_all
  then show ?thesis by (simp add: commit_events_def)
qed

lemma emit_set_cell:
  "emit later (set_cell (emit earlier st) r name c)
     = (set_cell st r name c)\<lparr>trace := trace st @ earlier @ later\<rparr>"
  by (simp add: emit_def set_cell_def split: mobx_slot.splits)

text \<open>C1.  A write through \<open>setPropertyValue\<close> whose interception chain vetoes (which
  needs at least one registered interceptor, and happens exactly when an invoked
  interceptor returns nothing) returns without error and leaves the state as it was
  apart from the record of the interceptor invocations themselves: the stored value of
  the cell is unchanged, no listener is notified and no spy event is emitted.\<close>

theorem setPropertyValue_veto:
  assumes "mobx (objects st r) = ObjectAdministration a"
    and "run_interceptors 0 (adm_interceptors a)
           \<lparr>wc_object = r, wc_type = Update, wc_name = name, wc_newValue = v\<rparr>
         = (evs, None)"
  shows "adm_interceptors a \<noteq> []
       \<and> setPropertyValue E st r name v = Inr (st\<lparr>trace := trace st @ evs\<rparr>)
       \<and> stored_value (st\<lparr>trace := trace st @ evs\<rparr>) r name = stored_value st r name
       \<and> (\<forall>e \<in> set evs. is_interceptor_call e)"
proof -
  have "adm_interceptors a \<noteq> []"
    using assms(2) by (rule run_interceptors_None_nonempty)
  moreover have "setPropertyValue E st r name v = Inr (st\<lparr>trace := trace st @ evs\<rparr>)"
    using assms by (simp add: setPropertyValue_phases emit_def)
  moreover have "stored_value (st\<lparr>trace := trace st @ evs\<rparr>) r name = stored_value st r name"
    by (simp add: stored_value_def)
  moreover have "\<forall>e \<in> set evs. is_interceptor_call e"
    using assms(2) by (rule run_interceptors_events)
  ultimately show ?thesis by simp
qed

theorem setPropertyValue_veto_witness:
  "setPropertyValue reference_cells (point_state [times_ten, veto] [7] True) 0 ''x'' (JNum 2)
     = Inr ((point_state [times_ten, veto] [7] True)
              \<lparr>trace :=
                 [InterceptorCalled 0
                    \<lparr>wc_object = 0, wc_type = Update, wc_name = ''x'', wc_newValue = JNum 2\<rparr>,
                  InterceptorCalled 1
                    \<lparr>wc_object = 0, wc_type = Update, wc_name = ''x'', wc_newValue = JNum 20\<rparr>]\<rparr>)"
proof -
  have slot: "mobx (objects (point_state [times_ten, veto] [7] True) 0)
      = ObjectAdministration (point_adm [times_ten, veto] [7])"
    by (simp add: point_state_def)
  have chain: "run_interceptors 0 (adm_interceptors (point_adm [times_ten, veto] [7]))
        \<lparr>wc_object = 0, wc_type = Update, wc_name = ''x'', wc_newValue = JNum 2\<rparr>
      = ([InterceptorCalled 0
            \<lparr>wc_object = 0, wc_type = Update, wc_name = ''x'', wc_newValue = JNum 2\<rparr>,
          InterceptorCalled 1
            \<lparr>wc_object = 0, wc_type = Update, wc_name = ''x'', wc_newValue = JNum 20\<rparr>],
         None)"
    by (simp add: point_adm_def times_ten_def veto_def)
  from setPropertyValue_veto [OF slot chain, of reference_cells]
  show ?thesis by (simp add: point_state_def)
qed

text \<open>C2.  A write through \<open>setPropertyValue\<close> that commits returns the state in which
  the cell stores the new value and the trace has gained, after the interceptor
  invocations and in this order: the spy start report (if a spy is attached), at which
  the property still reads as the old value; the commit of the new value into the
  cell; one notification per listener in registration order, at each of which the
  property reads as the new value; and the spy end report (if a spy is attached).  With
  a spy attached and a listener registered this is start, commit, notify, end; a
  skipped step leaves the order of the others as it is.\<close>

theorem setPropertyValue_event_order:
  assumes "mobx (objects st r) = ObjectAdministration a"
    and "dict_get (adm_values a) name = Own (ObservableValue ov)"
    and "run_interceptors 0 (adm_interceptors a)
           \<lparr>wc_object = r, wc_type = Update, wc_name = name, wc_newValue = v\<rparr>
         = (evs, Some c)"
    and "prepareNewValue E ov (wc_newValue c) = Some nv"
  shows "\<exists>st'. setPropertyValue E st r name v = Inr st'
       \<and> st' = (set_cell st r name (ObservableValue (ov\<lparr>ov_value := nv\<rparr>)))
                  \<lparr>trace := trace st @ evs
                     @ (if spyEnabled st
                        then [Readable r name (Some (ov_value ov)),
                              SpyReportStart (update_change r name (ov_value ov) nv)]
                        else [])
                     @ [ValueCommitted (ov_name ov) nv]
                     @ concat (map (\<lambda>l. [Readable r name (Some nv),
                                            ListenerNotified l
                                              (update_change r name (ov_value ov) nv)])
                                (adm_changeListeners a))
                     @ (if spyEnabled st then [SpyReportEnd] else [])\<rparr>
       \<and> stored_value st r name = Some (ov_value ov)
       \<and> stored_value st' r name = Some nv"
proof -
  have "setPropertyValue E st r name v =
      Inr ((set_cell st r name (ObservableValue (ov\<lparr>ov_value := nv\<rparr>)))
             \<lparr>trace := trace st @ evs
                @ commit_events (spyEnabled st) (adm_changeListeners a) r name (ov_name ov)
                    (ov_value ov) nv\<rparr>)"
    using setPropertyValue_commits [OF assms] by (simp only: emit_set_cell)
  moreover have "stored_value st r name = Some (ov_value ov)"
    using assms(1,2) by (simp add: stored_value_def dict_get_Own)
  moreover have "\<And>evs'. stored_value
        ((set_cell st r name (ObservableValue (ov\<lparr>ov_value := nv\<rparr>)))\<lparr>trace := evs'\<rparr>)
        r name = Some nv"
    using assms(1) by (simp add: stored_value_def set_cell_def)
  ultimately show ?thesis
    by (simp add: commit_events_def)
qed

theorem setPropertyValue_event_order_witness:
  "\<exists>st'. setPropertyValue reference_cells (point_state [] [7, 8] True) 0 ''x'' (JNum 2)
           = Inr st'
     \<and> st' = (set_cell (point_state [] [7, 8] True) 0 ''x''
               (ObservableValue (x_cell\<lparr>ov_value := JNum 2\<rparr>)))
              \<lparr>trace :=
                 [Readable 0 ''x'' (Some (JNum 1)),
                  SpyReportStart (update_change 0 ''x'' (JNum 1) (JNum 2)),
                  ValueCommitted ''Point.x'' (JNum 2),
                  Readable 0 ''x'' (Some (JNum 2)),
                  ListenerNotified 7 (update_change 0 ''x'' (JNum 1) (JNum 2)),
                  Readable 0 ''x'' (Some (JNum 2)),
                  ListenerNotified 8 (update_change 0 ''x'' (JNum 1) (JNum 2)),
                  SpyReportEnd]\<rparr>
     \<and> stored_value (point_state [] [7, 8] True) 0 ''x'' = Some (JNum 1)
     \<and> stored_value st' 0 ''x'' = Some (JNum 2)"
proof -
  have slot: "mobx (objects (point_state [] [7, 8] True) 0)
      = ObjectAdministration (point_adm [] [7, 8])"
    by (simp add: point_state_def)
  have cell: "dict_get (adm_values (point_adm [] [7, 8])) ''x'' = Own (ObservableValue x_cell)"
    by (simp add: point_adm_def dict_get_def)
  have chain: "run_interceptors 0 (adm_interceptors (point_adm [] [7, 8]))
        \<lparr>wc_object = 0, wc_type = Update, wc_name = ''x'', wc_newValue = JNum 2\<rparr>
      = ([], Some \<lparr>wc_object = 0, wc_type = Update, wc_name = ''x'', wc_newValue = JNum 2\<rparr>)"
    by (simp add: point_adm_def)
  have prep: "prepareNewValue reference_cells x_cell
        (wc_newValue \<lparr>wc_object = 0, wc_type = Update, wc_name = ''x'', wc_newValue = JNum 2\<rparr>)
      = Some (JNum 2)"
    by (simp add: reference_cells_def x_cell_def)
  have spy: "spyEnabled (point_state [] [7, 8] True)" and tr: "trace (point_state [] [7, 8] True) = []"
    and ls: "adm_changeListeners (point_adm [] [7, 8]) = [7, 8]"
    and old: "ov_value x_cell = JNum 1" and label: "ov_name x_cell = ''Point.x''"
    by (simp_all add: point_state_def point_adm_def x_cell_def)
  from setPropertyValue_event_order [OF slot cell chain prep]
  show ?thesis by (simp add: spy tr ls old label)
qed

text \<open>C3.  A write through \<open>setPropertyValue\<close> for which \<open>prepareNewValue\<close> returns the
  \<open>UNCHANGED\<close> sentinel returns without error and leaves the state as it was apart from
  the record of the interceptor invocations: no cell is mutated, no listener is
  notified and no spy event is emitted.\<close>

theorem setPropertyValue_unchanged:
  assumes "mobx (objects st r) = ObjectAdministration a"
    and "dict_get (adm_values a) name = Own (ObservableValue ov)"
    and "run_interceptors 0 (adm_interceptors a)
           \<lparr>wc_object = r, wc_type = Update, wc_name = name, wc_newValue = v\<rparr>
         = (evs, Some c)"
    and "prepareNewValue E ov (wc_newValue c) = None"
  shows "setPropertyValue E st r name v = Inr (st\<lparr>trace := trace st @ evs\<rparr>)
       \<and> (\<forall>e \<in> set evs. is_interceptor_call e)"
proof -
  have "setPropertyValue E st r name v =
      setPropertyValue_commit E (emit evs st) a r name (wc_newValue c)"
    using assms(1,3) by (simp add: setPropertyValue_phases)
  also have "\<dots> = Inr (emit evs st)"
    using assms(2,4) by (simp add: setPropertyValue_commit_def)
  finally have "setPropertyValue E st r name v = Inr (st\<lparr>trace := trace st @ evs\<rparr>)"
    by (simp add: emit_def)
  moreover have "\<forall>e \<in> set evs. is_interceptor_call e"
    using assms(3) by (rule run_interceptors_events)
  ultimately show ?thesis by simp
qed

theorem setPropertyValue_unchanged_witness:
  "setPropertyValue reference_cells (point_state [] [7] True) 0 ''x'' (JNum 1)
     = Inr (point_state [] [7] True)"
proof -
  have slot: "mobx (objects (point_state [] [7] True) 0)
      = ObjectAdministration (point_adm [] [7])"
    by (simp add: point_state_def)
  have cell: "dict_get (adm_values (point_adm [] [7])) ''x'' = Own (ObservableValue x_cell)"
    by (simp add: point_adm_def dict_get_def)
  have chain: "run_interceptors 0 (adm_interceptors (point_adm [] [7]))
        \<lparr>wc_object = 0, wc_type = Update, wc_name = ''x'', wc_newValue = JNum 1\<rparr>
      = ([], Some \<lparr>wc_object = 0, wc_type = Update, wc_name = ''x'', wc_newValue = JNum 1\<rparr>)"
    by (simp add: point_adm_def)
  have prep: "prepareNewValue reference_cells x_cell
        (wc_newValue \<lparr>wc_object = 0, wc_type = Update, wc_name = ''x'', wc_newValue = JNum 1\<rparr>)
      = None"
    by (simp add: reference_cells_def x_cell_def)
  from setPropertyValue_unchanged [OF slot cell chain prep]
  show ?thesis by (simp add: point_state_def)
qed

text \<open>C4.  For a write through \<open>setPropertyValue\<close> that commits, the notifications it
  delivers are exactly one Update change per listener, whose \<open>oldValue\<close> is the value
  the cell stored before the call and whose \<open>newValue\<close> is the value the cell stores
  after it: the value \<open>prepareNewValue\<close> returned for the value the interception chain
  handed on.\<close>

theorem setPropertyValue_notification_content:
  assumes "mobx (objects st r) = ObjectAdministration a"
    and "dict_get (adm_values a) name = Own (ObservableValue ov)"
    and "run_interceptors 0 (adm_interceptors a)
           \<lparr>wc_object = r, wc_type = Update, wc_name = name, wc_newValue = v\<rparr>
         = (evs, Some c)"
    and "prepareNewValue E ov (wc_newValue c) = Some nv"
  shows "\<exists>st'. setPropertyValue E st r name v = Inr st'
       \<and> stored_value st r name = Some (ov_value ov)
       \<and> stored_value st' r name = Some nv
       \<and> filter is_notification (new_events st st') =
           map (\<lambda>l. ListenerNotified l
                  \<lparr>ch_name = name, ch_object = r, ch_type = Update,
                   ch_oldValue = Some (ov_value ov), ch_newValue = nv\<rparr>)
             (adm_changeListeners a)"
proof -
  let ?st' = "emit (commit_events (spyEnabled st) (adm_changeListeners a) r name (ov_name ov)
                  (ov_value ov) nv)
            (set_cell (emit evs st) r name (ObservableValue (ov\<lparr>ov_value := nv\<rparr>)))"
  have res: "setPropertyValue E st r name v = Inr ?st'"
    using assms by (rule setPropertyValue_commits)
  have before: "stored_value st r name = Some (ov_value ov)"
    using assms(1,2) by (simp add: stored_value_def dict_get_Own)
  have "mobx (objects (emit evs st) r) = ObjectAdministration a"
    using assms(1) by (simp add: mobx_emit)
  then have after: "stored_value ?st' r name = Some nv"
    by (simp add: stored_value_emit stored_value_set_cell)
  have calls: "filter is_notification evs = []"
    using run_interceptors_events [OF assms(3)]
    by (rule filter_notification_interceptor_calls)
  have "filter is_notification (new_events st ?st') =
      map (\<lambda>l. ListenerNotified l (update_change r name (ov_value ov) nv))
        (adm_changeListeners a)"
    using calls
    by (simp add: new_events_def trace_emit trace_set_cell filter_notification_commit_events)
  with res before after show ?thesis
    by (auto simp add: update_change_def)
qed

theorem setPropertyValue_notification_content_witness:
  "\<exists>st'. setPropertyValue reference_cells (point_state [times_ten] [7] False) 0 ''x'' (JNum 3)
           = Inr st'
     \<and> stored_value (point_state [times_ten] [7] False) 0 ''x'' = Some (JNum 1)
     \<and> stored_value st' 0 ''x'' = Some (JNum 30)
     \<and> filter is_notification (new_events (point_state [times_ten] [7] False) st') =
        [ListenerNotified 7
           \<lparr>ch_name = ''x'', ch_object = 0, ch_type = Update,
            ch_oldValue = Some (JNum 1), ch_newValue = JNum 30\<rparr>]"
proof -
  have slot: "mobx (objects (point_state [times_ten] [7] False) 0)
      = ObjectAdministration (point_adm [times_ten] [7])"
    by (simp add: point_state_def)
  have cell: "dict_get (adm_values (point_adm [times_ten] [7])) ''x''
      = Own (ObservableValue x_cell)"
    by (simp add: point_adm_def dict_get_def)
  have chain: "run_interceptors 0 (adm_interceptors (point_adm [times_ten] [7]))
        \<lparr>wc_object = 0, wc_type = Update, wc_name = ''x'', wc_newValue = JNum 3\<rparr>
      = ([InterceptorCalled 0
            \<lparr>wc_object = 0, wc_type = Update, wc_name = ''x'', wc_newValue = JNum 3\<rparr>],
         Some \<lparr>wc_object = 0, wc_type = Update, wc_name = ''x'', wc_newValue = JNum 30\<rparr>)"
    by (simp add: point_adm_def times_ten_def)
  have prep: "prepareNewValue reference_cells x_cell
        (wc_newValue \<lparr>wc_object = 0, wc_type = Update, wc_name = ''x'', wc_newValue = JNum 30\<rparr>)
      = Some (JNum 30)"
    by (simp add: reference_cells_def x_cell_def)
  from setPropertyValue_notification_content [OF slot cell chain prep]
  show ?thesis by (simp add: point_adm_def x_cell_def)
qed

text \<open>C6, as stated, fails: there is no check for a missing cell.  With the name \<open>y\<close>
  unbound and a registered interceptor that vetoes, the call returns without any
  error.\<close>

theorem setPropertyValue_unbound_counterexample:
  "mobx (objects (point_state [veto] [] False) 0) = ObjectAdministration (point_adm [veto] [])
   \<and> adm_values (point_adm [veto] []) ''y'' = None
   \<and> setPropertyValue reference_cells (point_state [veto] [] False) 0 ''y'' (JNum 2)
       = Inr ((point_state [veto] [] False)
                \<lparr>trace :=
                   [InterceptorCalled 0
                      \<lparr>wc_object = 0, wc_type = Update, wc_name = ''y'',
                       wc_newValue = JNum 2\<rparr>]\<rparr>)"
  by (simp add: point_state_def point_adm_def setPropertyValue_def hasInterceptors_def
      interceptChange_def emit_def veto_def)

text \<open>C6, amended.  For a name with no bound cell, \<open>setPropertyValue\<close> first runs the
  interception chain.  If the chain vetoes, the call returns without error and without
  effect; otherwise (also when no interceptor is registered) it fails with the
  \<open>TypeError\<close> that the runtime raises when \<open>prepareNewValue\<close> is called on the missing
  cell, and nothing but the interceptor invocations has happened by then.\<close>

theorem setPropertyValue_unbound:
  assumes "mobx (objects st r) = ObjectAdministration a"
    and "adm_values a name = None"
  shows "setPropertyValue E st r name v =
     (case run_interceptors 0 (adm_interceptors a)
             \<lparr>wc_object = r, wc_type = Update, wc_name = name, wc_newValue = v\<rparr> of
        (evs, None) \<Rightarrow> Inr (st\<lparr>trace := trace st @ evs\<rparr>)
      | (evs, Some c) \<Rightarrow> Inl (TypeError, st\<lparr>trace := trace st @ evs\<rparr>))"
proof -
  have "\<And>s w. setPropertyValue_commit E s a r name w = Inl (TypeError, s)"
    using assms(2) by (simp add: setPropertyValue_commit_def dict_get_def)
  then show ?thesis
    using assms(1)
    by (simp add: setPropertyValue_phases emit_def split: prod.splits option.splits)
qed

theorem setPropertyValue_unbound_witness:
  "setPropertyValue reference_cells (point_state [] [] False) 0 ''y'' (JNum 2)
     = Inl (TypeError, point_state [] [] False)
   \<and> setPropertyValue reference_cells (point_state [times_ten] [] False) 0 ''y'' (JNum 2)
       = Inl (TypeError,
              (point_state [times_ten] [] False)
                \<lparr>trace :=
                   [InterceptorCalled 0
                      \<lparr>wc_object = 0, wc_type = Update, wc_name = ''y'',
                       wc_newValue = JNum 2\<rparr>]\<rparr>)"
  using setPropertyValue_unbound [of "point_state [] [] False" 0 "point_adm [] []" "''y''"
      reference_cells "JNum 2"]
    setPropertyValue_unbound [of "point_state [times_ten] [] False" 0 "point_adm [times_ten] []"
      "''y''" reference_cells "JNum 2"]
  by (simp add: point_state_def point_adm_def times_ten_def)

subsection \<open>The generated accessors\<close>



subsection \<open>The predicate and the reactivation entry point\<close>

text \<open>C10.  \<open>isObservableObject\<close> returns false, with no error and no effect, for every
  value that is not an object.  For an object of the store it first runs the deferred
  initializers of the object and then returns true exactly when the \<open>$mobx\<close> slot
  holds an \<open>ObservableObjectAdministration\<close>.  A modifier descriptor and a computed
  value, which have no slot, give false.\<close>

theorem isObservableObject_spec:
  "(\<not> isObject thing \<longrightarrow> isObservableObject E st thing = (st, False))
   \<and> isObservableObject E st (JObj r) =
       (runLazyInitializers E st r,
        \<exists>a. mobx (objects (runLazyInitializers E st r) r) = ObjectAdministration a)
   \<and> isObservableObject E st (JModifier v e) = (st, False)
   \<and> isObservableObject E st (JComputed cv) = (st, False)"
proof -
  have "\<And>s. isObservableObjectAdministration s \<longleftrightarrow> (\<exists>a. s = ObjectAdministration a)"
    by (case_tac s) simp_all
  then show ?thesis
    by (simp add: isObservableObject_def Let_def)
qed

theorem isObservableObject_spec_witness:
  "\<not> isObject (JNum 5)
   \<and> isObservableObject deferred_fields initial_state (JNum 5) = (initial_state, False)
   \<and> mobx (objects initial_state 0) = NoAdministration
   \<and> snd (isObservableObject deferred_fields initial_state (JObj 0))"
  using isObservableObject_spec [of "JNum 5" deferred_fields initial_state 0]
  by (simp add: deferred_fields_def reference_cells_def addHiddenFinalProp_def
      initial_state_def fresh_object_def)

text \<open>C8, as stated, fails: for an instance of a class \<open>Todo\<close> the caller's name
  \<open>myTodo\<close> is not used; the administration is named \<open>Todo@1\<close>.\<close>

theorem asObservableObject_name_counterexample:
  "class_name (objects todo_state 0) = Some ''Todo''
   \<and> mobx (objects todo_state 0) = NoAdministration
   \<and> \<not> isl (asObservableObject reference_cells todo_state 0 (Some ''myTodo''))
   \<and> adm_name (snd (projr (asObservableObject reference_cells todo_state 0 (Some ''myTodo''))))
       = ''Todo@1''"
  by (simp add: todo_state_def initial_state_def fresh_object_def asObservableObject_def
      isObservableObject_def reference_cells_def isPlainObject_def constructor_name_def
      getNextId_def addHiddenFinalProp_def Let_def string_of_nat.simps digit_char_def)

text \<open>C8, amended.  For an extensible target that carries no administration record once
  its deferred initializers have run, \<open>asObservableObject\<close> attaches a record whose
  name is: for an instance of a class, always the derived \<open>TypeName@N\<close>
  (\<open>ObservableObject@N\<close> when the constructor has no name), whether or not the caller
  supplies a name; for a plain structural record, the supplied name when it is not
  empty, and the derived \<open>ObservableObject@N\<close> when the name is absent or empty.
  \<open>N\<close> is the next value of the id counter.\<close>

theorem asObservableObject_name:
  assumes "runLazyInitializers E st target = st0"
    and "\<forall>a. mobx (objects st0 target) \<noteq> ObjectAdministration a"
    and "extensible (objects st0 target)"
  shows "\<exists>st' a. asObservableObject E st target name = Inr (st', a)
       \<and> mobx (objects st' target) = ObjectAdministration a
       \<and> adm_name a =
           (case class_name (objects st0 target) of
              Some cn \<Rightarrow> (if cn = [] then ''ObservableObject'' else cn)
                           @ ''@'' @ string_of_nat (Suc (mobxGuid st0))
            | None \<Rightarrow>
                (case name of
                   None \<Rightarrow> ''ObservableObject@'' @ string_of_nat (Suc (mobxGuid st0))
                 | Some n \<Rightarrow>
                     if n = [] then ''ObservableObject@'' @ string_of_nat (Suc (mobxGuid st0))
                     else n))"
proof -
  have notadm: "\<not> isObservableObjectAdministration (mobx (objects st0 target))"
    using assms(2) by (cases "mobx (objects st0 target)") simp_all
  show ?thesis
  proof (cases "class_name (objects st0 target)")
    case None
    then show ?thesis
      using assms(1,3) notadm
      by (cases name)
        (simp_all add: asObservableObject_def isObservableObject_def isPlainObject_def
          getNextId_def addHiddenFinalProp_def Let_def)
  next
    case (Some cn)
    then show ?thesis
      using assms(1,3) notadm
      by (simp add: asObservableObject_def isObservableObject_def isPlainObject_def
          constructor_name_def getNextId_def addHiddenFinalProp_def Let_def)
  qed
qed

theorem asObservableObject_name_witness:
  "(\<exists>st' a. asObservableObject reference_cells initial_state 0 (Some ''Point'') = Inr (st', a)
      \<and> mobx (objects st' 0) = ObjectAdministration a \<and> adm_name a = ''Point'')
   \<and> (\<exists>st' a. asObservableObject reference_cells initial_state 0 None = Inr (st', a)
      \<and> mobx (objects st' 0) = ObjectAdministration a \<and> adm_name a = ''ObservableObject@1'')"
proof -
  have 1: "runLazyInitializers reference_cells initial_state 0 = initial_state"
    by (simp add: reference_cells_def)
  have 2: "\<forall>a. mobx (objects initial_state 0) \<noteq> ObjectAdministration a"
    by (simp add: initial_state_def fresh_object_def)
  have 3: "extensible (objects initial_state 0)"
    by (simp add: initial_state_def fresh_object_def)
  from asObservableObject_name [OF 1 2 3, of "Some ''Point''"]
    asObservableObject_name [OF 1 2 3, of None]
  show ?thesis
    by (simp add: initial_state_def fresh_object_def string_of_nat.simps digit_char_def)
qed

subsection \<open>The installers\<close>

lemma bound_kind_emit: "bound_kind (emit evs st) = bound_kind st"
  by (simp add: bound_kind_def emit_def fun_eq_iff)

lemma bound_kind_set_cell:
  assumes "mobx (objects st r) = ObjectAdministration a"
    and "adm_values a p = Some c0" and "kind_of c0 = kind_of c"
  shows "bound_kind (set_cell st r p c) = bound_kind st"
  using assms
  by (auto simp add: bound_kind_def set_cell_def fun_eq_iff)

lemma bound_kind_props_update:
  "bound_kind (st\<lparr>objects := (objects st)(r := (objects st r)\<lparr>props := ps\<rparr>)\<rparr>)
     = bound_kind st"
  by (simp add: bound_kind_def fun_eq_iff)

lemma bound_kind_objects:
  "objects st' = objects st \<Longrightarrow> bound_kind st' = bound_kind st"
  by (simp add: bound_kind_def fun_eq_iff)

text \<open>A write through the router, a generated setter or an assignment, whether it
  returns or throws, never changes which kind of cell any name of any object is bound
  to.\<close>

lemma setPropertyValue_commit_kind:
  assumes "mobx (objects st r) = ObjectAdministration a"
  shows "bound_kind (state_after (setPropertyValue_commit E st a r name w)) = bound_kind st"
proof (cases "\<exists>ov. dict_get (adm_values a) name = Own (ObservableValue ov)")
  case False
  then have "setPropertyValue_commit E st a r name w = Inl (TypeError, st)"
    by (auto simp add: setPropertyValue_commit_def split: lookup.splits cell.splits)
  then show ?thesis by simp
next
  case True
  then obtain ov where cell: "dict_get (adm_values a) name = Own (ObservableValue ov)"
    by blast
  show ?thesis
  proof (cases "prepareNewValue E ov w")
    case None
    with cell show ?thesis by (simp add: setPropertyValue_commit_def)
  next
    case (Some nv)
    have "bound_kind (set_cell st r name (ObservableValue (ov\<lparr>ov_value := nv\<rparr>)))
        = bound_kind st"
    proof (rule bound_kind_set_cell [OF assms])
      show "adm_values a name = Some (ObservableValue ov)"
        using cell by (simp add: dict_get_Own)
      show "kind_of (ObservableValue ov) = kind_of (ObservableValue (ov\<lparr>ov_value := nv\<rparr>))"
        by simp
    qed
    with setPropertyValue_commit_result [OF assms cell Some]
    show ?thesis by (simp add: bound_kind_emit)
  qed
qed

lemma setPropertyValue_kind:
  "bound_kind (state_after (setPropertyValue E st r name v)) = bound_kind st"
proof (cases "\<exists>a. mobx (objects st r) = ObjectAdministration a")
  case False
  then have "setPropertyValue E st r name v = Inl (TypeError, st)"
    by (auto simp add: setPropertyValue_def split: mobx_slot.splits)
  then show ?thesis by simp
next
  case True
  then obtain a where slot: "mobx (objects st r) = ObjectAdministration a"
    by blast
  obtain evs res where chain: "run_interceptors 0 (adm_interceptors a)
      \<lparr>wc_object = r, wc_type = Update, wc_name = name, wc_newValue = v\<rparr> = (evs, res)"
    by (cases "run_interceptors 0 (adm_interceptors a)
      \<lparr>wc_object = r, wc_type = Update, wc_name = name, wc_newValue = v\<rparr>")
  show ?thesis
  proof (cases res)
    case None
    with slot chain show ?thesis
      by (simp add: setPropertyValue_phases bound_kind_emit)
  next
    case (Some c)
    have "mobx (objects (emit evs st) r) = ObjectAdministration a"
      using slot by (simp add: mobx_emit)
    then have "bound_kind (state_after
          (setPropertyValue_commit E (emit evs st) a r name (wc_newValue c)))
        = bound_kind (emit evs st)"
      by (rule setPropertyValue_commit_kind)
    with Some slot chain show ?thesis
      by (simp add: setPropertyValue_phases bound_kind_emit)
  qed
qed

lemma call_setter_kind:
  "bound_kind (state_after (call_setter E st f r v)) = bound_kind st"
proof (cases f)
  case (ObservableSetter p)
  then show ?thesis by (simp add: setPropertyValue_kind)
next
  case (ComputedSetter p)
  then show ?thesis
    by (simp add: computed_set_def bound_kind_emit
        split: mobx_slot.splits lookup.splits cell.splits)
qed simp_all

lemma put_property_kind:
  "bound_kind (state_after (put_property E st r p v)) = bound_kind st"
proof (cases "props (objects st r) p")
  case None
  then show ?thesis
    by (simp add: put_property_def bound_kind_props_update)
next
  case (Some pr)
  show ?thesis
  proof (cases pr)
    case (DataProperty old w e c)
    with Some show ?thesis
      by (simp add: put_property_def bound_kind_props_update)
  next
    case (AccessorProperty cfg)
    with Some show ?thesis
      by (simp add: put_property_def call_setter_kind)
  qed
qed

text \<open>An installation, whether it returns or throws, binds the cell of one name of one
  object and touches no other binding.\<close>

lemma notifyPropertyAddition_objects:
  "objects (notifyPropertyAddition st a t p v) = objects st"
  by (simp add: notifyPropertyAddition_def Let_def spyReportStart_def spyReportEnd_def
      notifyListeners_def emit_def)

lemma generate_objects:
  "objects (fst (generateObservablePropConfig st n)) = objects st"
  "objects (fst (generateComputedPropConfig st n)) = objects st"
  by (simp_all add: generateObservablePropConfig_def generateComputedPropConfig_def
      split: lookup.splits)

lemma bound_kind_set_cell_other:
  assumes "(r', q) \<noteq> (r, p)"
  shows "bound_kind (set_cell st r' q c) r p = bound_kind st r p"
proof (cases "mobx (objects st r')")
  case (ObjectAdministration a)
  with assms show ?thesis
    by (cases "r' = r") (simp_all add: bound_kind_def set_cell_def)
qed (simp_all add: set_cell_def)

lemma defineProperty_kind:
  "bound_kind (state_after (defineProperty st t n d)) = bound_kind st"
proof (cases "props (objects st t) n")
  case None
  then show ?thesis
    by (simp add: defineProperty_def bound_kind_props_update)
next
  case (Some current)
  show ?thesis
  proof (cases d)
    case (Config cfg)
    with Some show ?thesis
      by (simp add: defineProperty_def bound_kind_props_update)
  next
    case (PrototypeMember m)
    with Some show ?thesis
      by (simp add: defineProperty_def)
  qed
qed

lemma define_generated_kind:
  "bound_kind (state_after
      (case generateObservablePropConfig st q of
         (st2, config) \<Rightarrow> defineProperty st2 t q config)) = bound_kind st"
  "bound_kind (state_after
      (case generateComputedPropConfig st q of
         (st2, config) \<Rightarrow> defineProperty st2 t q config)) = bound_kind st"
proof -
  obtain st2 config where g: "generateObservablePropConfig st q = (st2, config)"
    by (cases "generateObservablePropConfig st q")
  then have "objects st2 = objects st"
    using generate_objects(1) [of st q] by simp
  then have "bound_kind st2 = bound_kind st"
    by (rule bound_kind_objects)
  with g show "bound_kind (state_after
      (case generateObservablePropConfig st q of
         (st2, config) \<Rightarrow> defineProperty st2 t q config)) = bound_kind st"
    by (simp add: defineProperty_kind)
next
  obtain st2 config where g: "generateComputedPropConfig st q = (st2, config)"
    by (cases "generateComputedPropConfig st q")
  then have "objects st2 = objects st"
    using generate_objects(2) [of st q] by simp
  then have "bound_kind st2 = bound_kind st"
    by (rule bound_kind_objects)
  with g show "bound_kind (state_after
      (case generateComputedPropConfig st q of
         (st2, config) \<Rightarrow> defineProperty st2 t q config)) = bound_kind st"
    by (simp add: defineProperty_kind)
qed

lemma defineObservableProperty_install_kind:
  assumes "(r', q) \<noteq> (r, p)"
  shows "bound_kind (state_after (defineObservableProperty_install E st r' a q v e b)) r p
           = bound_kind st r p"
proof -
  let ?st1 = "set_cell st r' q (ObservableValue (new_ObservableValue E v e (cell_name a q)))"
  let ?defined = "if b then (case generateObservablePropConfig ?st1 q of
              (st2, config) \<Rightarrow> defineProperty st2 (adm_target a) q config)
           else Inr ?st1"
  have defined: "bound_kind (state_after ?defined) = bound_kind ?st1"
    by (simp add: define_generated_kind)
  have "bound_kind (state_after (defineObservableProperty_install E st r' a q v e b))
      = bound_kind (state_after ?defined)"
  proof (cases ?defined)
    case (Inl failure)
    then show ?thesis
      by (simp add: defineObservableProperty_install_def Let_def)
  next
    case (Inr st3)
    then have "state_after (defineObservableProperty_install E st r' a q v e b)
        = notifyPropertyAddition st3 a (adm_target a) q
            (ov_value (new_ObservableValue E v e (cell_name a q)))"
      by (simp add: defineObservableProperty_install_def Let_def)
    moreover have "bound_kind (notifyPropertyAddition st3 a (adm_target a) q
          (ov_value (new_ObservableValue E v e (cell_name a q)))) = bound_kind st3"
      by (rule bound_kind_objects) (simp add: notifyPropertyAddition_objects)
    ultimately show ?thesis
      using Inr by simp
  qed
  with defined assms show ?thesis
    by (simp add: bound_kind_set_cell_other)
qed

lemma defineObservableProperty_kind:
  assumes "(r', q) \<noteq> (r, p)"
  shows "bound_kind (state_after (defineObservableProperty E st r' q v e b)) r p
           = bound_kind st r p"
proof (cases "\<exists>a. mobx (objects st r') = ObjectAdministration a")
  case False
  then have "defineObservableProperty E st r' q v e b = Inl (TypeError, st)"
    by (auto simp add: defineObservableProperty_def split: mobx_slot.splits)
  then show ?thesis by simp
next
  case True
  then obtain a where slot: "mobx (objects st r') = ObjectAdministration a"
    by blast
  show ?thesis
  proof (cases "b \<and> assertPropertyConfigurable st (adm_target a) q
        = Inl (PropertyNotConfigurable, st)")
    case True
    with slot have "defineObservableProperty E st r' q v e b
        = Inl (PropertyNotConfigurable, st)"
      by (simp add: defineObservableProperty_def)
    then show ?thesis by simp
  next
    case False
    then have ok: "(if b then assertPropertyConfigurable st (adm_target a) q else Inr ())
        = Inr ()"
      by (auto simp add: assertPropertyConfigurable_def split: option.splits)
    show ?thesis
    proof (cases "hasInterceptors a")
      case False
      with slot ok have "defineObservableProperty E st r' q v e b
          = defineObservableProperty_install E st r' a q v e b"
        by (simp add: defineObservableProperty_def)
      with assms show ?thesis
        by (simp add: defineObservableProperty_install_kind)
    next
      case True
      obtain evs res where chain: "run_interceptors 0 (adm_interceptors a)
          \<lparr>wc_object = adm_target a, wc_type = Add, wc_name = q, wc_newValue = v\<rparr>
        = (evs, res)"
        by (cases "run_interceptors 0 (adm_interceptors a)
          \<lparr>wc_object = adm_target a, wc_type = Add, wc_name = q, wc_newValue = v\<rparr>")
      show ?thesis
      proof (cases res)
        case None
        with True slot ok chain have "defineObservableProperty E st r' q v e b
            = Inr (emit evs st)"
          by (simp add: defineObservableProperty_def interceptChange_def)
        then show ?thesis by (simp add: bound_kind_emit)
      next
        case (Some c)
        with True slot ok chain have "defineObservableProperty E st r' q v e b
            = defineObservableProperty_install E (emit evs st) r' a q (wc_newValue c) e b"
          by (simp add: defineObservableProperty_def interceptChange_def)
        with assms show ?thesis
          by (simp add: defineObservableProperty_install_kind bound_kind_emit)
      qed
    qed
  qed
qed

lemma bind_computed_kind:
  assumes "(r', q) \<noteq> (r, p)"
  shows "bound_kind (state_after (bind_computed st r' a q cv b)) r p = bound_kind st r p"
proof -
  have "bound_kind (state_after (bind_computed st r' a q cv b))
      = bound_kind (set_cell st r' q (ComputedValue cv))"
    by (simp add: bind_computed_def Let_def define_generated_kind)
  with assms show ?thesis
    by (simp add: bound_kind_set_cell_other)
qed

lemma defineComputedProperty_kind:
  assumes "(r', q) \<noteq> (r, p)"
  shows "bound_kind (state_after (defineComputedProperty st r' q g s cs b)) r p
           = bound_kind st r p"
proof (cases "\<exists>a. mobx (objects st r') = ObjectAdministration a")
  case False
  then have "defineComputedProperty st r' q g s cs b = Inl (TypeError, st)"
    by (auto simp add: defineComputedProperty_def split: mobx_slot.splits)
  then show ?thesis by simp
next
  case True
  then obtain a where slot: "mobx (objects st r') = ObjectAdministration a"
    by blast
  show ?thesis
  proof (cases "b \<and> assertPropertyConfigurable st (adm_target a) q
        = Inl (PropertyNotConfigurable, st)")
    case True
    with slot have "defineComputedProperty st r' q g s cs b
        = Inl (PropertyNotConfigurable, st)"
      by (simp add: defineComputedProperty_def)
    then show ?thesis by simp
  next
    case False
    then have ok: "(if b then assertPropertyConfigurable st (adm_target a) q else Inr ())
        = Inr ()"
      by (auto simp add: assertPropertyConfigurable_def split: option.splits)
    with slot obtain cv where "defineComputedProperty st r' q g s cs b
        = bind_computed st r' a q cv b"
      by (simp add: defineComputedProperty_def)
    with assms show ?thesis
      by (simp add: bind_computed_kind)
  qed
qed

lemma defineComputedPropertyFromComputedValue_kind:
  assumes "(r', q) \<noteq> (r, p)"
  shows "bound_kind (state_after (defineComputedPropertyFromComputedValue st r' q cv b)) r p
           = bound_kind st r p"
proof (cases "\<exists>a. mobx (objects st r') = ObjectAdministration a")
  case False
  then have "defineComputedPropertyFromComputedValue st r' q cv b = Inl (TypeError, st)"
    by (auto simp add: defineComputedPropertyFromComputedValue_def split: mobx_slot.splits)
  then show ?thesis by simp
next
  case True
  then obtain a where slot: "mobx (objects st r') = ObjectAdministration a"
    by blast
  then obtain cv' where "defineComputedPropertyFromComputedValue st r' q cv b
      = bind_computed st r' a q cv' b"
    by (simp add: defineComputedPropertyFromComputedValue_def)
  with assms show ?thesis
    by (simp add: bind_computed_kind)
qed

text \<open>A declaration through \<open>defineObservablePropertyFromDescriptor\<close>, on any object and
  name and whether it returns or throws, leaves a bound name bound to the same kind of
  cell.\<close>

lemma defineObservablePropertyFromDescriptor_keeps:
  assumes "bound_kind st r p = Some k"
  shows "bound_kind (state_after (defineObservablePropertyFromDescriptor E st r' q desc e)) r p
           = Some k"
proof (cases "\<exists>a. mobx (objects st r') = ObjectAdministration a")
  case False
  then have "defineObservablePropertyFromDescriptor E st r' q desc e = Inl (TypeError, st)"
    by (auto simp add: defineObservablePropertyFromDescriptor_def split: mobx_slot.splits)
  with assms show ?thesis by simp
next
  case True
  then obtain a where slot: "mobx (objects st r') = ObjectAdministration a"
    by blast
  show ?thesis
  proof (cases "truthy (dict_get (adm_values a) q)")
    case True
    show ?thesis
    proof (cases desc)
      case (AccessorDescriptor g s)
      with True slot have "defineObservablePropertyFromDescriptor E st r' q desc e
          = Inl (RedefinitionConflict, st)"
        by (simp add: defineObservablePropertyFromDescriptor_def)
      with assms show ?thesis by simp
    next
      case (DataDescriptor v)
      with True slot have "defineObservablePropertyFromDescriptor E st r' q desc e
          = put_property E st (adm_target a) q v"
        by (simp add: defineObservablePropertyFromDescriptor_def)
      with assms show ?thesis by (simp add: put_property_kind)
    qed
  next
    case False
    then have "adm_values a q = None"
      by (auto simp add: dict_get_def split: option.splits)
    with slot assms have ne: "(r', q) \<noteq> (r, p)"
      by (auto simp add: bound_kind_def)
    have "bound_kind (state_after (defineObservablePropertyFromDescriptor E st r' q desc e)) r p
        = bound_kind st r p"
    proof (cases desc)
      case (AccessorDescriptor g s)
      with False slot have "defineObservablePropertyFromDescriptor E st r' q desc e
          = defineComputedProperty st r' q g s False True"
        by (simp add: defineObservablePropertyFromDescriptor_def)
      with ne show ?thesis by (simp add: defineComputedProperty_kind)
    next
      case (DataDescriptor v)
      with False slot have
        "(\<exists>w en. defineObservablePropertyFromDescriptor E st r' q desc e
              = defineObservableProperty E st r' q w en True)
         \<or> (\<exists>cv. defineObservablePropertyFromDescriptor E st r' q desc e
              = defineComputedPropertyFromComputedValue st r' q cv True)"
        by (cases v; simp add: defineObservablePropertyFromDescriptor_def; blast)
      then show ?thesis
      proof (elim disjE exE)
        fix w en
        assume "defineObservablePropertyFromDescriptor E st r' q desc e
            = defineObservableProperty E st r' q w en True"
        with ne show ?thesis by (simp add: defineObservableProperty_kind)
      next
        fix cv
        assume "defineObservablePropertyFromDescriptor E st r' q desc e
            = defineComputedPropertyFromComputedValue st r' q cv True"
        with ne show ?thesis by (simp add: defineComputedPropertyFromComputedValue_kind)
      qed
    qed
    with assms show ?thesis by simp
  qed
qed

lemma install_all_keeps:
  "bound_kind st r p = Some k \<Longrightarrow> bound_kind (install_all E st ops) r p = Some k"
proof (induction ops arbitrary: st)
  case Nil
  then show ?case by simp
next
  case (Cons op ops)
  obtain r' q d e where op: "op = (r', q, d, e)"
    using prod_cases4 by blast
  from defineObservablePropertyFromDescriptor_keeps [OF Cons.prems]
  have "bound_kind (state_after (defineObservablePropertyFromDescriptor E st r' q d e)) r p
      = Some k" .
  from Cons.IH [OF this] op show ?case by simp
qed

text \<open>C5, as stated, fails.  With \<open>x\<close> bound to a value cell, declaring it again through
  \<open>defineObservablePropertyFromDescriptor\<close> with a pre-built computed value, which
  would install a computed cell on a fresh name, does not fail: the computed value is
  written into the value cell.  And \<open>defineComputedProperty\<close>, called directly on the
  bound name, rebinds \<open>x\<close> from a value cell to a computed cell.\<close>

theorem redeclaration_counterexample:
  "bound_kind (point_state [] [] False) 0 ''x'' = Some ValueCell
   \<and> defineObservablePropertyFromDescriptor reference_cells (point_state [] [] False) 0 ''x''
       (DataDescriptor (JComputed sum_cell)) (Enhancer 0)
     = Inr (emit [ValueCommitted ''Point.x'' (JComputed sum_cell)]
            (set_cell (point_state [] [] False) 0 ''x''
               (ObservableValue (x_cell\<lparr>ov_value := JComputed sum_cell\<rparr>))))
   \<and> \<not> isl (defineComputedProperty (point_state [] [] False) 0 ''x'' (Some 1) None False True)
   \<and> bound_kind
        (projr (defineComputedProperty (point_state [] [] False) 0 ''x'' (Some 1) None False True))
        0 ''x''
     = Some ComputedCell"
  by (simp add: point_state_def point_adm_def x_cell_def bound_kind_def
      defineObservablePropertyFromDescriptor_def dict_get_def put_property_def
      observablePropConfig_def setPropertyValue_def hasInterceptors_def
      setPropertyValue_commit_def reference_cells_def hasListeners_def isSpyEnabled_def
      setNewValue_def set_cell_def emit_def Let_def
      defineComputedProperty_def assertPropertyConfigurable_def bind_computed_def cell_name_def
      generateComputedPropConfig_def object_prototype_members_def defineProperty_def)

text \<open>Four declarations on the object with the field \<open>x\<close>: \<open>x\<close> again with a pre-built
  computed value, \<open>x\<close> again with a getter (which throws), a new computed field \<open>sum\<close>,
  and \<open>sum\<close> again with a plain value.\<close>

lemma point_declarations:
  "install_all reference_cells (point_state [] [] False)
     [(0, ''x'', DataDescriptor (JComputed sum_cell), Enhancer 0),
      (0, ''x'', AccessorDescriptor (Some 1) None, Enhancer 0),
      (0, ''sum'', AccessorDescriptor (Some 1) (Some 2), Enhancer 0),
      (0, ''sum'', DataDescriptor (JNum 5), Enhancer 0)]
   = \<lparr>objects = (\<lambda>r. fresh_object)
        (0 := \<lparr>class_name = None, extensible = True,
               props = [''x'' \<mapsto> AccessorProperty (observablePropConfig ''x''),
                        ''sum'' \<mapsto> AccessorProperty (computedPropConfig ''sum'')],
               mobx = ObjectAdministration
                 \<lparr>adm_values =
                    [''x'' \<mapsto> ObservableValue (x_cell\<lparr>ov_value := JComputed sum_cell\<rparr>),
                     ''sum'' \<mapsto> ComputedValue sum_cell],
                  adm_changeListeners = [], adm_interceptors = [], adm_target = 0,
                  adm_name = ''Point''\<rparr>\<rparr>),
      mobxGuid = 0, spyEnabled = False,
      observablePropertyConfigs = [''x'' \<mapsto> observablePropConfig ''x''],
      computedPropertyConfigs = [''sum'' \<mapsto> computedPropConfig ''sum''],
      trace = [ValueCommitted ''Point.x'' (JComputed sum_cell),
               ComputedSetCalled ''Point.sum'' (JNum 5)]\<rparr>"
  by (simp add: point_state_def point_adm_def x_cell_def sum_cell_def reference_cells_def
      defineObservablePropertyFromDescriptor_def dict_get_def object_prototype_members_def
      put_property_def observablePropConfig_def computedPropConfig_def
      setPropertyValue_def hasInterceptors_def setPropertyValue_commit_def hasListeners_def
      isSpyEnabled_def setNewValue_def set_cell_def emit_def Let_def
      defineComputedProperty_def assertPropertyConfigurable_def bind_computed_def
      cell_name_def generateComputedPropConfig_def defineProperty_def computed_set_def)

text \<open>C5, amended.  A property name that is bound to a cell stays bound to a cell of the
  same kind through every sequence of declarations made with
  \<open>defineObservablePropertyFromDescriptor\<close>, on whatever objects and names and whether
  each declaration returns or throws.  Declaring the bound name again with a getter or
  setter descriptor fails with \<open>RedefinitionConflict\<close> and leaves the state as it was;
  declaring it again with a descriptor that has a value, be the value plain,
  modifier-wrapped or a pre-built computed value, is the assignment of that value to
  the property of the target and installs nothing.\<close>

theorem single_binding:
  assumes "bound_kind st r p = Some k"
  shows "(\<forall>ops. bound_kind (install_all E st ops) r p = Some k)
       \<and> defineObservablePropertyFromDescriptor E st r p (AccessorDescriptor g s) d
           = Inl (RedefinitionConflict, st)
       \<and> (\<exists>a. mobx (objects st r) = ObjectAdministration a
            \<and> defineObservablePropertyFromDescriptor E st r p (DataDescriptor v) d
                = put_property E st (adm_target a) p v)"
proof -
  from assms obtain a c where slot: "mobx (objects st r) = ObjectAdministration a"
    and cell: "adm_values a p = Some c"
    by (auto simp add: bound_kind_def split: mobx_slot.splits)
  have t: "truthy (dict_get (adm_values a) p)"
    using cell by (simp add: dict_get_def)
  have "\<forall>ops. bound_kind (install_all E st ops) r p = Some k"
    using assms by (simp add: install_all_keeps)
  moreover have "defineObservablePropertyFromDescriptor E st r p (AccessorDescriptor g s) d
      = Inl (RedefinitionConflict, st)"
    using slot t by (simp add: defineObservablePropertyFromDescriptor_def)
  moreover have "defineObservablePropertyFromDescriptor E st r p (DataDescriptor v) d
      = put_property E st (adm_target a) p v"
    using slot t by (simp add: defineObservablePropertyFromDescriptor_def)
  ultimately show ?thesis
    using slot by simp
qed

theorem single_binding_witness:
  "bound_kind (point_state [] [] False) 0 ''x'' = Some ValueCell
   \<and> bound_kind
        (install_all reference_cells (point_state [] [] False)
           [(0, ''x'', DataDescriptor (JComputed sum_cell), Enhancer 0),
            (0, ''x'', AccessorDescriptor (Some 1) None, Enhancer 0),
            (0, ''sum'', AccessorDescriptor (Some 1) (Some 2), Enhancer 0),
            (0, ''sum'', DataDescriptor (JNum 5), Enhancer 0)])
        0 ''x''
     = Some ValueCell
   \<and> defineObservablePropertyFromDescriptor reference_cells (point_state [] [] False) 0 ''x''
       (AccessorDescriptor (Some 1) None) (Enhancer 0)
     = Inl (RedefinitionConflict, point_state [] [] False)"
proof -
  have k: "bound_kind (point_state [] [] False) 0 ''x'' = Some ValueCell"
    by (simp add: bound_kind_def point_state_def point_adm_def)
  from single_binding [OF k, of reference_cells "Some 1" None "Enhancer 0" "JNum 2"]
  have keeps: "\<forall>ops. bound_kind (install_all reference_cells (point_state [] [] False) ops)
        0 ''x'' = Some ValueCell"
    and conflict: "defineObservablePropertyFromDescriptor reference_cells
        (point_state [] [] False) 0 ''x'' (AccessorDescriptor (Some 1) None) (Enhancer 0)
      = Inl (RedefinitionConflict, point_state [] [] False)"
    by blast+
  from keeps k conflict show ?thesis
    by blast
qed

subsection \<open>The accessors that the installers define\<close>

lemma generateObservablePropConfig_own:
  assumes "configs_generated st" and "propName \<notin> set object_prototype_members"
  shows "snd (generateObservablePropConfig st propName) = Config (observablePropConfig propName)"
  using assms
  by (auto simp add: generateObservablePropConfig_def dict_get_def configs_generated_def
      split: option.splits)

lemma generate_configs_generated:
  assumes "configs_generated st"
  shows "configs_generated (fst (generateObservablePropConfig st propName))"
    and "configs_generated (fst (generateComputedPropConfig st propName))"
  using assms
  by (auto simp add: generateObservablePropConfig_def generateComputedPropConfig_def
      configs_generated_def split: lookup.splits)

lemma defineProperty_Config:
  "defineProperty st r p (Config cfg) = Inr st' \<Longrightarrow>
   props (objects st' r) p = Some (AccessorProperty cfg)"
  by (auto simp add: defineProperty_def split: option.splits if_splits)

lemma defineObservableProperty_install_accessor:
  assumes "configs_generated st" and "propName \<notin> set object_prototype_members"
    and "defineObservableProperty_install E st r a propName v enh True = Inr st'"
  shows "props (objects st' (adm_target a)) propName
           = Some (AccessorProperty (observablePropConfig propName))"
proof -
  let ?st1 = "set_cell st r propName
      (ObservableValue (new_ObservableValue E v enh (cell_name a propName)))"
  have gen: "configs_generated ?st1"
    using assms(1) by (simp add: configs_generated_def set_cell_def split: mobx_slot.splits)
  obtain st2 d where g: "generateObservablePropConfig ?st1 propName = (st2, d)"
    by (cases "generateObservablePropConfig ?st1 propName")
  with generateObservablePropConfig_own [OF gen assms(2)]
  have d: "d = Config (observablePropConfig propName)" by simp
  from assms(3) g d obtain st3 where
    def: "defineProperty st2 (adm_target a) propName (Config (observablePropConfig propName))
        = Inr st3"
    and st': "st' = notifyPropertyAddition st3 a (adm_target a) propName
        (ov_value (new_ObservableValue E v enh (cell_name a propName)))"
    by (auto simp add: defineObservableProperty_install_def Let_def split: sum.splits)
  from defineProperty_Config [OF def] st' show ?thesis
    by (simp add: notifyPropertyAddition_objects)
qed

text \<open>For a name that is not a member of \<open>Object.prototype\<close>, an installation as an
  instance property that no interceptor cancels leaves on the target the generated
  accessor, which is enumerable and configurable and whose setter is the router's.\<close>

lemma defineObservableProperty_accessor:
  assumes "configs_generated st" and "propName \<notin> set object_prototype_members"
    and "mobx (objects st r) = ObjectAdministration a"
    and "run_interceptors 0 (adm_interceptors a)
           \<lparr>wc_object = adm_target a, wc_type = Add, wc_name = propName, wc_newValue = v\<rparr>
         = (evs, Some c)"
    and "defineObservableProperty E st r propName v enh True = Inr st'"
  shows "\<exists>cfg. props (objects st' (adm_target a)) propName = Some (AccessorProperty cfg)
       \<and> cfg_enumerable cfg \<and> cfg_configurable cfg \<and> cfg_set cfg = ObservableSetter propName"
proof -
  have gen: "configs_generated (emit evs st)"
    using assms(1) by (simp add: configs_generated_def emit_def)
  have "defineObservableProperty_install E (emit evs st) r a propName (wc_newValue c) enh True
      = Inr st'"
  proof (cases "adm_interceptors a = []")
    case True
    with assms(3,4,5) show ?thesis
      by (auto simp add: defineObservableProperty_def hasInterceptors_def emit_Nil
          split: sum.splits)
  next
    case False
    with assms(3,4,5) show ?thesis
      by (auto simp add: defineObservableProperty_def hasInterceptors_def interceptChange_def
          split: sum.splits)
  qed
  from defineObservableProperty_install_accessor [OF gen assms(2) this]
  show ?thesis by (simp add: observablePropConfig_def)
qed

lemma configs_generated_initial: "configs_generated initial_state"
  by (simp add: configs_generated_def initial_state_def)

lemma generateComputedPropConfig_own:
  assumes "configs_generated st" and "propName \<notin> set object_prototype_members"
  shows "snd (generateComputedPropConfig st propName) = Config (computedPropConfig propName)"
  using assms
  by (auto simp add: generateComputedPropConfig_def dict_get_def configs_generated_def
      split: option.splits)

lemma defineProperty_mobx:
  "defineProperty st t n d = Inr st' \<Longrightarrow> mobx (objects st' r) = mobx (objects st r)"
  by (auto simp add: defineProperty_def split: option.splits if_splits descriptor_arg.splits)

lemma mobx_set_cell:
  "mobx (objects st r) = ObjectAdministration a \<Longrightarrow>
   mobx (objects (set_cell st r p c) r)
     = ObjectAdministration (a\<lparr>adm_values := (adm_values a)(p \<mapsto> c)\<rparr>)"
  by (simp add: set_cell_def)

text \<open>For a name that is not a member of \<open>Object.prototype\<close>, an installation of a
  computed cell as an instance property binds the cell and leaves on the target the
  generated computed accessor.\<close>

lemma defineComputedProperty_installs:
  assumes "configs_generated st" and "p \<notin> set object_prototype_members"
    and "mobx (objects st r) = ObjectAdministration a" and "adm_target a = r"
    and "defineComputedProperty st r p g s cs True = Inr st'"
  shows "\<exists>a' cv. mobx (objects st' r) = ObjectAdministration a'
       \<and> adm_values a' p = Some (ComputedValue cv)
       \<and> props (objects st' r) p = Some (AccessorProperty (computedPropConfig p))"
proof -
  let ?cv = "\<lparr>cv_getter = g, cv_scope = Some (adm_target a), cv_compareStructural = cs,
      cv_name = cell_name a p, cv_setter = s\<rparr>"
  let ?st1 = "set_cell st r p (ComputedValue ?cv)"
  have gen: "configs_generated ?st1"
    using assms(1) by (simp add: configs_generated_def set_cell_def split: mobx_slot.splits)
  obtain st2 d where g: "generateComputedPropConfig ?st1 p = (st2, d)"
    by (cases "generateComputedPropConfig ?st1 p")
  with generateComputedPropConfig_own [OF gen assms(2)]
  have d: "d = Config (computedPropConfig p)" by simp
  have o2: "objects st2 = objects ?st1"
    using generate_objects(2) [of ?st1 p] g by simp
  from assms(3,4,5) g d
  have def: "defineProperty st2 r p (Config (computedPropConfig p)) = Inr st'"
    by (auto simp add: defineComputedProperty_def bind_computed_def Let_def split: sum.splits)
  have "mobx (objects st' r) = mobx (objects ?st1 r)"
    using defineProperty_mobx [OF def, of r] o2 by simp
  then have "mobx (objects st' r)
      = ObjectAdministration (a\<lparr>adm_values := (adm_values a)(p \<mapsto> ComputedValue ?cv)\<rparr>)"
    using assms(3) by (simp add: mobx_set_cell)
  moreover from defineProperty_Config [OF def]
  have "props (objects st' r) p = Some (AccessorProperty (computedPropConfig p))" .
  ultimately show ?thesis by simp
qed

text \<open>C9.  The claim holds for every name that is not a member of \<open>Object.prototype\<close>,
  by the lemma on the observable accessor above, and fails for a name that
  \<open>Object.prototype\<close> has.  Installing \<open>toString\<close> as an observable instance
  property on the freshly reactivated object binds a value cell, but the read at line
  173 finds the inherited \<open>toString\<close> instead of a configuration, line 175 returns it,
  and \<open>Object.defineProperty\<close> is given an object without descriptor fields: the
  property the target gets is a data property holding \<open>undefined\<close>, neither an
  accessor nor enumerable nor configurable.\<close>

theorem defineObservableProperty_toString:
  "\<exists>st' pr. defineObservableProperty reference_cells empty_point_state 0 ''toString''
              (JNum 1) (Enhancer 0) True = Inr st'
     \<and> bound_kind st' 0 ''toString'' = Some ValueCell
     \<and> props (objects st' 0) ''toString'' = Some pr
     \<and> pr = DataProperty JUndefined False False False
     \<and> \<not> is_accessor pr \<and> \<not> prop_enumerable pr \<and> \<not> prop_configurable pr"
  by (simp add: defineObservableProperty_def empty_point_state_def empty_point_adm_def
      initial_state_def fresh_object_def assertPropertyConfigurable_def
      hasInterceptors_def defineObservableProperty_install_def new_ObservableValue_def
      cell_name_def set_cell_def generateObservablePropConfig_def dict_get_def
      object_prototype_members_def
      defineProperty_def notifyPropertyAddition_def hasListeners_def isSpyEnabled_def
      bound_kind_def reference_cells_def Let_def)

end
